theory Spec2Isabelle
  imports Complex_Main
begin

section \<open>Numbers\<close>

text \<open>
  Every number of the JavaScript sources is an IEEE-754 binary64 value. The model keeps the
  finite values as reals and makes the rounding of each operation an explicit parameter
  \<open>fl\<close> of the function that computes with them: \<open>fl = exact\<close> is arithmetic without
  rounding, \<open>fl = binary64\<close> rounds every result to the nearest double, ties to even.
  The non-finite values (\<open>NaN\<close>, \<open>Infinity\<close>) are not represented, so \<open>binary64\<close> says
  nothing of results beyond the largest double. A division by zero has no finite value: the
  distance function divides with \<open>divide_js\<close>, which then returns none; the bounding box
  divides with the division of the reals, which says nothing of a divisor zero.
\<close>

definition exact :: "real \<Rightarrow> real" where
  "exact x = x"

text \<open>Rounding to the nearest integer, a tie going to the even one.\<close>

definition round_half_even :: "real \<Rightarrow> int" where
  "round_half_even y =
     (let n = \<lfloor>y\<rfloor>; d = y - of_int n
      in if d < 1 / 2 then n else if 1 / 2 < d then n + 1 else if even n then n else n + 1)"

text \<open>
  The spacing of the doubles around \<open>x\<close>: a significand of 53 bits, and the fixed spacing
  \<open>2 powr - 1074\<close> of the subnormal range.
\<close>

definition quantum :: "real \<Rightarrow> real" where
  "quantum x = 2 powr of_int (max (\<lfloor>log 2 \<bar>x\<bar>\<rfloor> - 52) (- 1074))"

definition binary64 :: "real \<Rightarrow> real" where
  "binary64 x = (if x = 0 then 0 else of_int (round_half_even (x / quantum x)) * quantum x)"

section \<open>Data model (src/model/db.js, src/lib/geocoder.js)\<close>

text \<open>A row of table \<open>Walkspan\<close>, with the columns the two queries select.\<close>

record sidewalk =
  natural_beauty_score :: real
  manmade_beauty_score :: real
  comfort_score :: real
  interest_score :: real
  safety_score :: real
  access_score :: real
  amenities_score :: real
  sidewalk_starting_longitude :: real
  sidewalk_ending_longitude :: real
  sidewalk_starting_latitude :: real
  sidewalk_ending_latitude :: real

text \<open>A row of table \<open>Bronx_Walkability\<close> (the second database).\<close>

record bronx_sidewalk =
  total1 :: real
  total2 :: real
  beauty_n :: real
  beauty_m :: real
  access :: real
  interest :: real
  amenities :: real
  shape_length :: real
  start_long :: real
  end_long :: real
  start_lat :: real
  end_lat :: real

text \<open>
  The values the two exported functions of db.js can return: a row or \<open>undefined\<close>
  (\<open>array[0]\<close>), or the array of rows of \<open>.all()\<close>. A call completes with a value
  (\<open>Inr\<close>) or throws (\<open>Inl\<close>).
\<close>

datatype js_value =
    Undefined
  | WalkspanRow sidewalk
  | BronxRow bronx_sidewalk
  | WalkspanRows "sidewalk list"
  | BronxRows "bronx_sidewalk list"

datatype js_error = ReferenceError | TypeError

type_synonym completion = "js_error + js_value"

text \<open>
  The statements of a function body after its \<open>const\<close> declarations: both functions
  of db.js end in two \<open>return\<close> statements in a row. Running a body completes with the
  first \<open>return\<close> it meets; a body that runs off its end returns \<open>undefined\<close>.
\<close>

datatype stmt = Return completion

fun exec :: "stmt list \<Rightarrow> completion" where
  "exec [] = Inr Undefined"
| "exec (Return e # rest) = e"

text \<open>The object returned by \<open>getBoundingBoxFromCoordinatesAndRange\<close>.\<close>

record bounding_box =
  topLat :: real
  bottomLat :: real
  leftLng :: real
  rightLng :: real

section \<open>Geo-math (src/lib/geocoder.js)\<close>

text \<open>
  \<open>getBoundingBoxFromCoordinatesAndRange\<close>, statement by statement. \<open>Number(latitude)\<close>
  is the identity on a number; the parameter \<open>range\<close> is written \<open>range_miles\<close>.
  Each literal, \<open>Math.PI\<close> and each operation is rounded by \<open>fl\<close>; the literals
  \<open>1000.0\<close> and \<open>180\<close> are doubles as they stand. \<open>Math.cos\<close> is taken as the rounded
  cosine. ECMAScript leaves its precision to the implementation; the proofs below use no
  more of it than that it is at most 1, at least \<open>2 powr - 56\<close> where the cosine is, and at
  least 0.49 for arguments between 0 and 1/2.
\<close>

definition getBoundingBoxFromCoordinatesAndRange ::
  "(real \<Rightarrow> real) \<Rightarrow> real \<Rightarrow> real \<Rightarrow> real \<Rightarrow> bounding_box" where
  "getBoundingBoxFromCoordinatesAndRange fl latitude longitude range_miles =
     (let pDistanceInMeters = fl (range_miles * fl 1609.344);
          latRadian = fl (fl (latitude * fl pi) / 180);
          degLatKm = fl 110.574235;
          degLongKm = fl (fl 110.572833 * fl (cos latRadian));
          deltaLat = fl (fl (pDistanceInMeters / 1000) / degLatKm);
          deltaLong = fl (fl (pDistanceInMeters / 1000) / degLongKm)
      in \<lparr> topLat = fl (latitude + deltaLat),
           bottomLat = fl (latitude - deltaLat),
           leftLng = fl (longitude - deltaLong),
           rightLng = fl (longitude + deltaLong) \<rparr>)"

section \<open>Third-party functions\<close>

text \<open>
  JavaScript's division of finite numbers, with its result rounded: there is none when the
  divisor is zero, where JavaScript gives \<open>NaN\<close> or an infinity. A number that may be
  \<open>NaN\<close> is a \<open>real option\<close>.
\<close>

definition divide_js :: "(real \<Rightarrow> real) \<Rightarrow> real \<Rightarrow> real \<Rightarrow> real option" where
  "divide_js fl x y = (if y = 0 then None else Some (fl (x / y)))"

text \<open>
  Modelled from the spec: the npm package \<open>distance-to-line-segment\<close> is not part of
  the sources. Section 4.1 of the specification describes it as the standard minimum
  Euclidean distance from a point to a segment, in the units supplied, where a zero-length
  segment collapses to the point-to-point distance. The arguments are in the order of the
  call in db.js: the segment's two end points, then the point. Every operation is rounded
  by \<open>fl\<close>, as in the bounding box. The point is projected on the line only when the squared
  length that was computed is not zero; the projection is the one division.
\<close>

definition distanceToLineSegment ::
  "(real \<Rightarrow> real) \<Rightarrow> real \<Rightarrow> real \<Rightarrow> real \<Rightarrow> real \<Rightarrow> real \<Rightarrow> real \<Rightarrow> real option" where
  "distanceToLineSegment fl lx1 ly1 lx2 ly2 px py =
     (let ldx = fl (lx2 - lx1);
          ldy = fl (ly2 - ly1);
          lineLengthSquared = fl (fl (ldx * ldx) + fl (ldy * ldy))
      in if lineLengthSquared = 0
         then (let dx = fl (px - lx1);
                   dy = fl (py - ly1)
               in Some (fl (sqrt (fl (fl (dx * dx) + fl (dy * dy))))))
         else (case divide_js fl (fl (fl (fl (px - lx1) * ldx) + fl (fl (py - ly1) * ldy)))
                      lineLengthSquared of
                 None \<Rightarrow> None
               | Some t \<Rightarrow>
                   (let tc = (if t < 0 then 0 else if t > 1 then 1 else t);
                        dx = fl (px - fl (lx1 + fl (tc * ldx)));
                        dy = fl (py - fl (ly1 + fl (tc * ldy)))
                    in Some (fl (sqrt (fl (fl (dx * dx) + fl (dy * dy))))))))"

text \<open>
  Modelled from the spec: underscore's \<open>sortBy\<close> is not part of the sources. Section 4.2
  of the specification describes it as a stable sort, ascending in the criterion: an
  element moves behind another only when its criterion is greater. \<open>NaN\<close> is greater than
  nothing, as in JavaScript; what the engine's sort makes of such criteria is left open by
  the language, and here the element stays where it is.
\<close>

definition greater_js :: "real option \<Rightarrow> real option \<Rightarrow> bool" where
  "greater_js a b = (case a of None \<Rightarrow> False | Some x \<Rightarrow> (case b of None \<Rightarrow> False | Some y \<Rightarrow> y < x))"

fun insertBy :: "('a \<Rightarrow> real option) \<Rightarrow> 'a \<Rightarrow> 'a list \<Rightarrow> 'a list" where
  "insertBy iteratee x [] = [x]"
| "insertBy iteratee x (y # ys) =
     (if greater_js (iteratee x) (iteratee y) then y # insertBy iteratee x ys else x # y # ys)"

definition sortBy :: "'a list \<Rightarrow> ('a \<Rightarrow> real option) \<Rightarrow> 'a list" where
  "sortBy obj iteratee = foldr (insertBy iteratee) obj []"

text \<open>\<open>array[0]\<close>: the first element, \<open>undefined\<close> for an empty array.\<close>

definition index0 :: "js_value list \<Rightarrow> js_value" where
  "index0 array = (case array of [] \<Rightarrow> Undefined | x # _ \<Rightarrow> x)"

section \<open>The queries (src/model/db.js)\<close>

text \<open>
  A table is the list of its rows. \<open>ORDER BY MIN(..., ...) ASC LIMIT 8\<close> keeps the first
  eight rows in ascending order of the key; SQL leaves the order of rows with equal keys
  open, and the model takes the stable one, which keeps the order of the table. SQLite
  computes the key in doubles: the differences and the sums are rounded by \<open>fl\<close>, and
  \<open>ABS\<close> and \<open>MIN\<close> are exact.
\<close>

definition orderKey :: "(real \<Rightarrow> real) \<Rightarrow> real \<Rightarrow> real \<Rightarrow> sidewalk \<Rightarrow> real" where
  "orderKey fl latitude longitude row =
     min (fl (\<bar>fl (sidewalk_starting_latitude row - latitude)\<bar>
                + \<bar>fl (sidewalk_starting_longitude row - longitude)\<bar>))
         (fl (\<bar>fl (sidewalk_ending_latitude row - latitude)\<bar>
                + \<bar>fl (sidewalk_ending_longitude row - longitude)\<bar>))"

definition sidewalkCandidates ::
  "(real \<Rightarrow> real) \<Rightarrow> sidewalk list \<Rightarrow> real \<Rightarrow> real \<Rightarrow> sidewalk list" where
  "sidewalkCandidates fl Walkspan latitude longitude =
     take 8 (sort_key (orderKey fl latitude longitude) Walkspan)"

definition orderKey2 :: "(real \<Rightarrow> real) \<Rightarrow> real \<Rightarrow> real \<Rightarrow> bronx_sidewalk \<Rightarrow> real" where
  "orderKey2 fl latitude longitude row =
     min (fl (\<bar>fl (start_lat row - latitude)\<bar> + \<bar>fl (start_long row - longitude)\<bar>))
         (fl (\<bar>fl (end_lat row - latitude)\<bar> + \<bar>fl (end_long row - longitude)\<bar>))"

definition sidewalkCandidates2 ::
  "(real \<Rightarrow> real) \<Rightarrow> bronx_sidewalk list \<Rightarrow> real \<Rightarrow> real \<Rightarrow> bronx_sidewalk list" where
  "sidewalkCandidates2 fl Bronx_Walkability latitude longitude =
     take 8 (sort_key (orderKey2 fl latitude longitude) Bronx_Walkability)"

text \<open>The criterion of the first \<open>sortBy\<close>: the arrow function of lines 76 to 84.\<close>

definition criterion :: "(real \<Rightarrow> real) \<Rightarrow> real \<Rightarrow> real \<Rightarrow> sidewalk \<Rightarrow> real option" where
  "criterion fl latitude longitude sidewalkCandidate =
     distanceToLineSegment fl
       (sidewalk_starting_latitude sidewalkCandidate)
       (sidewalk_starting_longitude sidewalkCandidate)
       (sidewalk_ending_latitude sidewalkCandidate)
       (sidewalk_ending_longitude sidewalkCandidate)
       latitude
       longitude"

text \<open>
  \<open>getClosestSidewalk\<close>. The second \<open>return\<close> calls \<open>sortBy2\<close> and
  \<open>distanceToLineSegment2\<close>, which db.js binds nowhere; they are parameters here, so
  that nothing is assumed of them.
\<close>

definition getClosestSidewalk ::
  "(real \<Rightarrow> real) \<Rightarrow>
   (bronx_sidewalk list \<Rightarrow> (bronx_sidewalk \<Rightarrow> real option) \<Rightarrow> bronx_sidewalk list) \<Rightarrow>
   (real \<Rightarrow> real \<Rightarrow> real \<Rightarrow> real \<Rightarrow> real \<Rightarrow> real \<Rightarrow> real option) \<Rightarrow>
   sidewalk list \<Rightarrow> bronx_sidewalk list \<Rightarrow> real \<Rightarrow> real \<Rightarrow> completion" where
  "getClosestSidewalk fl sortBy2 distanceToLineSegment2 Walkspan Bronx_Walkability
       latitude longitude =
     (let candidates = sidewalkCandidates fl Walkspan latitude longitude;
          candidates2 = sidewalkCandidates2 fl Bronx_Walkability latitude longitude
      in exec
           [Return (Inr (index0 (map WalkspanRow
              (sortBy candidates (criterion fl latitude longitude))))),
            Return (Inr (index0 (map BronxRow
              (sortBy2 candidates2 (\<lambda>sidewalkCandidate2.
                 distanceToLineSegment2
                   (start_lat sidewalkCandidate2)
                   (start_long sidewalkCandidate2)
                   (end_lat sidewalkCandidate2)
                   (end_long sidewalkCandidate2)
                   latitude
                   longitude)))))])"

text \<open>The \<open>WHERE\<close> clauses of the two queries of \<open>getSidewalksInRadius\<close>.\<close>

definition whereClause :: "bounding_box \<Rightarrow> sidewalk \<Rightarrow> bool" where
  "whereClause box row =
     ((bottomLat box \<le> sidewalk_starting_latitude row
         \<and> sidewalk_starting_latitude row \<le> topLat box
         \<and> leftLng box \<le> sidewalk_starting_longitude row
         \<and> sidewalk_starting_longitude row \<le> rightLng box)
      \<or> (bottomLat box \<le> sidewalk_ending_latitude row
         \<and> sidewalk_ending_latitude row \<le> topLat box
         \<and> leftLng box \<le> sidewalk_ending_longitude row
         \<and> sidewalk_ending_longitude row \<le> rightLng box))"

definition whereClause2 :: "bounding_box \<Rightarrow> bronx_sidewalk \<Rightarrow> bool" where
  "whereClause2 box row =
     ((bottomLat box \<le> start_lat row \<and> start_lat row \<le> topLat box
         \<and> leftLng box \<le> start_long row \<and> start_long row \<le> rightLng box)
      \<or> (bottomLat box \<le> end_lat row \<and> end_lat row \<le> topLat box
         \<and> leftLng box \<le> end_long row \<and> end_long row \<le> rightLng box))"

definition getSidewalksInRadius ::
  "(real \<Rightarrow> real) \<Rightarrow> sidewalk list \<Rightarrow> bronx_sidewalk list \<Rightarrow>
   real \<Rightarrow> real \<Rightarrow> real \<Rightarrow> completion" where
  "getSidewalksInRadius fl Walkspan Bronx_Walkability latitude longitude range_miles =
     (let box = getBoundingBoxFromCoordinatesAndRange fl latitude longitude range_miles
      in exec
           [Return (Inr (WalkspanRows (filter (whereClause box) Walkspan))),
            Return (Inr (BronxRows (filter (whereClause2 box) Bronx_Walkability)))])"

text \<open>A row with every score 1 and the given coordinates, for the concrete instances below.\<close>

definition exampleRow :: "real \<Rightarrow> real \<Rightarrow> real \<Rightarrow> real \<Rightarrow> sidewalk" where
  "exampleRow startLat startLng endLat endLng =
     \<lparr> natural_beauty_score = 1, manmade_beauty_score = 1, comfort_score = 1,
       interest_score = 1, safety_score = 1, access_score = 1, amenities_score = 1,
       sidewalk_starting_longitude = startLng, sidewalk_ending_longitude = endLng,
       sidewalk_starting_latitude = startLat, sidewalk_ending_latitude = endLat \<rparr>"

section \<open>Auxiliary facts\<close>

subsection \<open>The head of a stable sort\<close>




subsection \<open>The candidates and the first return\<close>


lemma getSidewalksInRadius_first_return:
  "getSidewalksInRadius fl Walkspan Bronx_Walkability latitude longitude range_miles =
     Inr (WalkspanRows (filter
       (whereClause (getBoundingBoxFromCoordinatesAndRange fl latitude longitude range_miles))
       Walkspan))"
  by (simp add: getSidewalksInRadius_def Let_def)







lemma getClosestSidewalk_first_return:
  "getClosestSidewalk fl sortBy2 distanceToLineSegment2 Walkspan Bronx_Walkability
       latitude longitude =
     Inr (index0 (map WalkspanRow
       (sortBy (sidewalkCandidates fl Walkspan latitude longitude)
          (criterion fl latitude longitude))))"
  by (simp add: getClosestSidewalk_def Let_def)


subsection \<open>The box in exact arithmetic\<close>

lemma exact_box:
  "getBoundingBoxFromCoordinatesAndRange exact lat lon r =
     \<lparr> topLat = lat + (r * 1609.344 / 1000) / 110.574235,
       bottomLat = lat - (r * 1609.344 / 1000) / 110.574235,
       leftLng = lon - (r * 1609.344 / 1000) / (110.572833 * cos (lat * pi / 180)),
       rightLng = lon + (r * 1609.344 / 1000) / (110.572833 * cos (lat * pi / 180)) \<rparr>"
  by (simp add: getBoundingBoxFromCoordinatesAndRange_def exact_def Let_def)

lemma cos_latRadian_pos:
  assumes "\<bar>lat\<bar> < 90"
  shows "0 < cos (lat * pi / 180)"
proof -
  from assms have up: "lat < 90" and lo: "- 90 < lat" by (simp_all add: abs_less_iff)
  have "lat * pi < 90 * pi" using up pi_gt_zero by (rule mult_strict_right_mono)
  moreover have "(- 90) * pi < lat * pi" using lo pi_gt_zero by (rule mult_strict_right_mono)
  ultimately have "- (pi / 2) < lat * pi / 180" and "lat * pi / 180 < pi / 2" by linarith+
  then show ?thesis by (rule cos_gt_zero_pi)
qed

lemma exact_ordered:
  assumes "\<bar>lat\<bar> < 90" and "0 < r"
  shows "bottomLat (getBoundingBoxFromCoordinatesAndRange exact lat lon r)
           < topLat (getBoundingBoxFromCoordinatesAndRange exact lat lon r)"
    and "leftLng (getBoundingBoxFromCoordinatesAndRange exact lat lon r)
           < rightLng (getBoundingBoxFromCoordinatesAndRange exact lat lon r)"
proof -
  have c: "0 < cos (lat * pi / 180)" using assms(1) by (rule cos_latRadian_pos)
  have lng: "0 < r * 1609.344 / 1000 / (110.572833 * cos (lat * pi / 180))"
    using c assms(2) by simp
  have lat: "0 < r * 1609.344 / 1000 / 110.574235" using assms(2) by simp
  show "bottomLat (getBoundingBoxFromCoordinatesAndRange exact lat lon r)
           < topLat (getBoundingBoxFromCoordinatesAndRange exact lat lon r)"
    using lat by (simp add: exact_box)
  show "leftLng (getBoundingBoxFromCoordinatesAndRange exact lat lon r)
           < rightLng (getBoundingBoxFromCoordinatesAndRange exact lat lon r)"
    using lng by (simp add: exact_box)
qed

lemma box_mono:
  assumes "\<bar>lat\<bar> < 90" and "r1 < r2"
  shows "topLat (getBoundingBoxFromCoordinatesAndRange exact lat lon r1)
           \<le> topLat (getBoundingBoxFromCoordinatesAndRange exact lat lon r2)"
    and "bottomLat (getBoundingBoxFromCoordinatesAndRange exact lat lon r2)
           \<le> bottomLat (getBoundingBoxFromCoordinatesAndRange exact lat lon r1)"
    and "rightLng (getBoundingBoxFromCoordinatesAndRange exact lat lon r1)
           \<le> rightLng (getBoundingBoxFromCoordinatesAndRange exact lat lon r2)"
    and "leftLng (getBoundingBoxFromCoordinatesAndRange exact lat lon r2)
           \<le> leftLng (getBoundingBoxFromCoordinatesAndRange exact lat lon r1)"
proof -
  have c: "0 < 110.572833 * cos (lat * pi / 180)"
    using cos_latRadian_pos [OF assms(1)] by simp
  have km: "r1 * 1609.344 / 1000 \<le> r2 * 1609.344 / 1000" using assms(2) by simp
  have lng: "r1 * 1609.344 / 1000 / (110.572833 * cos (lat * pi / 180))
           \<le> r2 * 1609.344 / 1000 / (110.572833 * cos (lat * pi / 180))"
    using km c by (rule divide_right_mono [OF _ less_imp_le])
  have lat: "r1 * 1609.344 / 1000 / 110.574235 \<le> r2 * 1609.344 / 1000 / (110.574235::real)"
    using km by (rule divide_right_mono) simp
  show "topLat (getBoundingBoxFromCoordinatesAndRange exact lat lon r1)
           \<le> topLat (getBoundingBoxFromCoordinatesAndRange exact lat lon r2)"
    using lat by (simp only: exact_box bounding_box.simps add_le_cancel_left)
  show "bottomLat (getBoundingBoxFromCoordinatesAndRange exact lat lon r2)
           \<le> bottomLat (getBoundingBoxFromCoordinatesAndRange exact lat lon r1)"
    using lat by (simp only: exact_box bounding_box.simps diff_left_mono)
  show "rightLng (getBoundingBoxFromCoordinatesAndRange exact lat lon r1)
           \<le> rightLng (getBoundingBoxFromCoordinatesAndRange exact lat lon r2)"
    using lng by (simp only: exact_box bounding_box.simps add_le_cancel_left)
  show "leftLng (getBoundingBoxFromCoordinatesAndRange exact lat lon r2)
           \<le> leftLng (getBoundingBoxFromCoordinatesAndRange exact lat lon r1)"
    using lng by (simp only: exact_box bounding_box.simps diff_left_mono)
qed

lemma whereClause_mono:
  assumes "topLat b1 \<le> topLat b2" "bottomLat b2 \<le> bottomLat b1"
    "rightLng b1 \<le> rightLng b2" "leftLng b2 \<le> leftLng b1"
    and "whereClause b1 S"
  shows "whereClause b2 S"
  using assms unfolding whereClause_def by linarith

subsection \<open>The distance of section 4.1\<close>





subsection \<open>Rounding to binary64\<close>

lemma round_half_even_error: "\<bar>of_int (round_half_even y) - y\<bar> \<le> 1 / 2"
proof -
  have "of_int \<lfloor>y\<rfloor> \<le> y" "y < of_int \<lfloor>y\<rfloor> + 1" by linarith+
  then show ?thesis by (auto simp: round_half_even_def Let_def)
qed

lemma quantum_pos: "0 < quantum x"
  by (simp add: quantum_def)

lemma binary64_error: "\<bar>binary64 x - x\<bar> \<le> quantum x / 2"
proof (cases "x = 0")
  case True
  then show ?thesis using quantum_pos [of 0] by (simp add: binary64_def)
next
  case False
  let ?q = "quantum x"
  have q: "0 < ?q" by (rule quantum_pos)
  have "binary64 x - x = (of_int (round_half_even (x / ?q)) - x / ?q) * ?q"
    using False q by (simp add: binary64_def algebra_simps)
  then have "\<bar>binary64 x - x\<bar> = \<bar>of_int (round_half_even (x / ?q)) - x / ?q\<bar> * ?q"
    using q by (simp add: abs_mult)
  also have "\<dots> \<le> (1 / 2) * ?q"
    using round_half_even_error [of "x / ?q"] q by (intro mult_right_mono) simp_all
  finally show ?thesis by simp
qed

lemma binary64_pair_error:
  "\<bar>(binary64 (c + d) - c) - (c - binary64 (c - d))\<bar>
     \<le> quantum (c + d) / 2 + quantum (c - d) / 2"
proof -
  have "(binary64 (c + d) - c) - (c - binary64 (c - d))
      = (binary64 (c + d) - (c + d)) + (binary64 (c - d) - (c - d))"
    by simp
  then show ?thesis
    using binary64_error [of "c + d"] binary64_error [of "c - d"] by linarith
qed

lemma quantum_normal:
  assumes "1 / 2 ^ 1022 \<le> \<bar>x\<bar>"
  shows "quantum x \<le> \<bar>x\<bar> / 2 ^ 52"
proof -
  have "(0::real) < 1 / 2 ^ 1022" by simp
  with assms have pos: "0 < \<bar>x\<bar>" by (rule less_le_trans [rotated])
  define e where "e = \<lfloor>log 2 \<bar>x\<bar>\<rfloor>"
  have low: "2 powr of_int e \<le> \<bar>x\<bar>"
    using floor_log_eq_powr_iff [of "\<bar>x\<bar>" 2 e] pos by (simp add: e_def)
  have "(2::real) powr of_int (- 1022) = 1 / 2 ^ 1022"
    by (simp add: powr_neg_numeral)
  then have "log 2 (2 powr of_int (- 1022)) \<le> log 2 \<bar>x\<bar>"
    using assms pos by (simp del: log_powr_cancel of_int_minus)
  then have "of_int (- 1022) \<le> log 2 \<bar>x\<bar>" by simp
  then have "- 1022 \<le> e" unfolding e_def by (simp add: le_floor_iff)
  then have "max (e - 52) (- 1074) = e - 52" by simp
  then have "quantum x = 2 powr (of_int e - 52)" by (simp add: quantum_def e_def)
  also have "\<dots> = 2 powr of_int e / 2 powr 52" by (simp add: powr_diff)
  also have "(2::real) powr 52 = 2 ^ 52" by (simp add: powr_numeral)
  finally show ?thesis using low by (simp add: divide_right_mono)
qed

lemma binary64_relative:
  assumes "1 / 2 ^ 1022 \<le> \<bar>x\<bar>"
  shows "\<bar>binary64 x - x\<bar> \<le> \<bar>x\<bar> / 2 ^ 53"
proof -
  have "\<bar>binary64 x - x\<bar> \<le> quantum x / 2" by (rule binary64_error)
  also have "\<dots> \<le> (\<bar>x\<bar> / 2 ^ 52) / 2" using quantum_normal [OF assms] by simp
  finally show ?thesis by simp
qed

lemma quantum_binade:
  assumes "2 powr of_int k \<le> \<bar>x\<bar>" and "\<bar>x\<bar> < 2 powr of_int (k + 1)" and "- 1022 \<le> k"
  shows "quantum x = 2 powr of_int (k - 52)"
proof -
  have "(0::real) < 2 powr of_int k" by simp
  with assms(1) have pos: "0 < \<bar>x\<bar>" by (rule less_le_trans [rotated])
  have "\<lfloor>log 2 \<bar>x\<bar>\<rfloor> = k"
    using floor_log_eq_powr_iff [of "\<bar>x\<bar>" 2 k] pos assms(1,2) by simp
  then show ?thesis using assms(3) by (simp add: quantum_def)
qed

lemma quantum_one_two: "1 \<le> y \<Longrightarrow> y < 2 \<Longrightarrow> quantum y = 1 / 2 ^ 52"
  using quantum_binade [of 0 y] by (simp add: powr_neg_numeral)

lemma quantum_half_one: "1 / 2 \<le> y \<Longrightarrow> y < 1 \<Longrightarrow> quantum y = 1 / 2 ^ 53"
  using quantum_binade [of "- 1" y] by (simp add: powr_neg_numeral)

lemma binary64_eq:
  "x \<noteq> 0 \<Longrightarrow> quantum x = q \<Longrightarrow> round_half_even (x / q) = n \<Longrightarrow> binary64 x = of_int n * q"
  by (simp add: binary64_def)

lemma binary64_one: "binary64 1 = 1"
proof -
  have q: "quantum 1 = 1 / 2 ^ 52" by (rule quantum_one_two) simp_all
  have r: "round_half_even (1 / (1 / 2 ^ 52)) = 2 ^ 52" by (simp add: round_half_even_def)
  have "binary64 1 = of_int (2 ^ 52) * (1 / 2 ^ 52)" by (rule binary64_eq [OF _ q r]) simp
  then show ?thesis by simp
qed

lemma binary64_above_one:
  assumes "0 \<le> D" and "D < 1 / 2 ^ 53"
  shows "binary64 (1 + D) = 1"
proof -
  have q: "quantum (1 + D) = 1 / 2 ^ 52"
    using assms by (intro quantum_one_two) simp_all
  have y: "(1 + D) / (1 / 2 ^ 52) = 2 ^ 52 + D * 2 ^ 52" by (simp add: algebra_simps)
  have d: "0 \<le> D * 2 ^ 52" "D * 2 ^ 52 < 1 / 2" using assms by simp_all
  have fl: "\<lfloor>(2::real) ^ 52 + D * 2 ^ 52\<rfloor> = 2 ^ 52"
    using d by (intro floor_unique) simp_all
  have r: "round_half_even ((1 + D) / (1 / 2 ^ 52)) = 2 ^ 52"
    unfolding y round_half_even_def Let_def fl using d by simp
  have "1 + D \<noteq> 0" using assms by simp
  then have "binary64 (1 + D) = of_int (2 ^ 52) * (1 / 2 ^ 52)" using q r by (rule binary64_eq)
  then show ?thesis by simp
qed

lemma binary64_below_one:
  assumes "0 < D" and "D < 1 / 2 ^ 54"
  shows "binary64 (1 - D) = 1"
proof -
  have q: "quantum (1 - D) = 1 / 2 ^ 53"
    using assms by (intro quantum_half_one) simp_all
  have y: "(1 - D) / (1 / 2 ^ 53) = 2 ^ 53 - D * 2 ^ 53" by (simp add: algebra_simps)
  have d: "0 < D * 2 ^ 53" "D * 2 ^ 53 < 1 / 2" using assms by simp_all
  have fl: "\<lfloor>(2::real) ^ 53 - D * 2 ^ 53\<rfloor> = 2 ^ 53 - 1"
    using d by (intro floor_unique) simp_all
  have r: "round_half_even ((1 - D) / (1 / 2 ^ 53)) = 2 ^ 53"
    unfolding y round_half_even_def Let_def fl using d by simp
  have "1 - D \<noteq> 0" using assms by simp
  then have "binary64 (1 - D) = of_int (2 ^ 53) * (1 / 2 ^ 53)" using q r by (rule binary64_eq)
  then show ?thesis by simp
qed

lemma binary64_near_one:
  assumes "\<bar>D\<bar> < 1 / 2 ^ 54"
  shows "binary64 (1 + D) = 1"
proof -
  consider "D = 0" | "0 < D" | "D < 0" by linarith
  then show ?thesis
  proof cases
    case 1
    then show ?thesis by (simp add: binary64_one)
  next
    case 2
    then show ?thesis using assms by (intro binary64_above_one) simp_all
  next
    case 3
    then have "binary64 (1 - (- D)) = 1" using assms by (intro binary64_below_one) simp_all
    then show ?thesis by simp
  qed
qed

lemma binary64_just_below_one:
  assumes "1 / 2 ^ 54 < D" and "D < 1 / 2 ^ 53"
  shows "binary64 (1 - D) = 1 - 1 / 2 ^ 53"
proof -
  have q: "quantum (1 - D) = 1 / 2 ^ 53"
    using assms by (intro quantum_half_one) simp_all
  have y: "(1 - D) / (1 / 2 ^ 53) = 2 ^ 53 - D * 2 ^ 53" by (simp add: algebra_simps)
  have d: "1 / 2 < D * 2 ^ 53" "D * 2 ^ 53 < 1" using assms by simp_all
  have fl: "\<lfloor>(2::real) ^ 53 - D * 2 ^ 53\<rfloor> = 2 ^ 53 - 1"
    using d by (intro floor_unique) simp_all
  have r: "round_half_even ((1 - D) / (1 / 2 ^ 53)) = 2 ^ 53 - 1"
    unfolding y round_half_even_def Let_def fl using d by simp
  have "1 - D \<noteq> 0" using assms by simp
  then have "binary64 (1 - D) = of_int (2 ^ 53 - 1) * (1 / 2 ^ 53)"
    using q r by (rule binary64_eq)
  then show ?thesis by (simp add: field_simps)
qed

text \<open>Interval form of the relative error for positive values.\<close>

lemma binary64_interval:
  assumes "1 / 2 ^ 1022 \<le> lo" and "lo \<le> x" and "x \<le> hi"
  shows "lo * (1 - 1 / 2 ^ 53) \<le> binary64 x \<and> binary64 x \<le> hi * (1 + 1 / 2 ^ 53)"
proof -
  have "(0::real) < 1 / 2 ^ 1022" by simp
  with assms(1) have pos: "0 < lo" by (rule less_le_trans [rotated])
  then have x: "\<bar>x\<bar> = x" using assms(2) by simp
  have "\<bar>binary64 x - x\<bar> \<le> x / 2 ^ 53"
    using binary64_relative [of x] assms(1,2) x by simp
  then have "x - x / 2 ^ 53 \<le> binary64 x" "binary64 x \<le> x + x / 2 ^ 53" by linarith+
  moreover have "lo * (1 - 1 / 2 ^ 53) \<le> x * (1 - 1 / 2 ^ 53)"
    using assms(2) by (intro mult_right_mono) simp_all
  moreover have "x * (1 + 1 / 2 ^ 53) \<le> hi * (1 + 1 / 2 ^ 53)"
    using assms(3) by (intro mult_right_mono) simp_all
  ultimately show ?thesis by (simp add: algebra_simps)
qed

lemma round_half_even_small:
  assumes "\<bar>y\<bar> < 1 / 2"
  shows "round_half_even y = 0"
proof (cases "0 \<le> y")
  case True
  then have "\<lfloor>y\<rfloor> = 0" using assms by (intro floor_unique) simp_all
  then show ?thesis using assms True by (simp add: round_half_even_def)
next
  case False
  then have "\<lfloor>y\<rfloor> = - 1" using assms by (intro floor_unique) simp_all
  then show ?thesis using assms False by (simp add: round_half_even_def)
qed

lemma binary64_abs_le_double: "\<bar>binary64 x\<bar> \<le> 2 * \<bar>x\<bar>"
proof (cases "quantum x / 2 \<le> \<bar>x\<bar>")
  case True
  have "\<bar>binary64 x\<bar> \<le> \<bar>binary64 x - x\<bar> + \<bar>x\<bar>" by simp
  also have "\<dots> \<le> quantum x / 2 + \<bar>x\<bar>" using binary64_error [of x] by simp
  finally show ?thesis using True by simp
next
  case False
  have q: "0 < quantum x" by (rule quantum_pos)
  from False have "\<bar>x\<bar> / quantum x < 1 / 2" using q by (simp add: field_simps)
  then have "\<bar>x / quantum x\<bar> < 1 / 2" using q by simp
  then have "round_half_even (x / quantum x) = 0" by (rule round_half_even_small)
  then have "binary64 x = 0" by (simp add: binary64_def)
  then show ?thesis by simp
qed

lemma binary64_const_bounds:
  "110 \<le> binary64 110.574235" "binary64 110.574235 \<le> 111"
  "110 \<le> binary64 110.572833" "binary64 110.572833 \<le> 111"
  "1609 \<le> binary64 1609.344" "binary64 1609.344 \<le> 1610"
  using binary64_interval [of "110.574235" "110.574235" "110.574235"]
        binary64_interval [of "110.572833" "110.572833" "110.572833"]
        binary64_interval [of "1609.344" "1609.344" "1609.344"]
  by simp_all

lemma kilometres_abs:
  "\<bar>binary64 (binary64 (r * binary64 1609.344) / 1000)\<bar> \<le> 7 * \<bar>r\<bar>"
proof -
  let ?c1 = "binary64 1609.344"
  let ?p = "binary64 (r * ?c1)"
  have c1: "\<bar>?c1\<bar> \<le> 1610" using binary64_const_bounds(5,6) by simp
  have "\<bar>?p\<bar> \<le> 2 * \<bar>r * ?c1\<bar>" by (rule binary64_abs_le_double)
  also have "\<dots> = 2 * (\<bar>r\<bar> * \<bar>?c1\<bar>)" by (simp add: abs_mult)
  also have "\<dots> \<le> 2 * (\<bar>r\<bar> * 1610)" using c1 by (intro mult_left_mono) simp_all
  finally have p: "\<bar>?p\<bar> \<le> 3220 * \<bar>r\<bar>" by simp
  have "\<bar>binary64 (?p / 1000)\<bar> \<le> 2 * \<bar>?p / 1000\<bar>" by (rule binary64_abs_le_double)
  also have "\<dots> = \<bar>?p\<bar> / 500" by simp
  also have "\<dots> \<le> 3220 * \<bar>r\<bar> / 500" using p by (rule divide_right_mono) simp
  finally show ?thesis by simp
qed

lemma delta_abs:
  assumes "50 \<le> deg"
  shows "\<bar>binary64 (binary64 (binary64 (r * binary64 1609.344) / 1000) / deg)\<bar> \<le> \<bar>r\<bar>"
proof -
  let ?q = "binary64 (binary64 (r * binary64 1609.344) / 1000)"
  have "\<bar>binary64 (?q / deg)\<bar> \<le> 2 * \<bar>?q / deg\<bar>" by (rule binary64_abs_le_double)
  also have "\<dots> = 2 * (\<bar>?q\<bar> / deg)" using assms by simp
  also have "\<bar>?q\<bar> / deg \<le> 7 * \<bar>r\<bar> / 50"
    using kilometres_abs [of r] assms by (intro frac_le) simp_all
  finally show ?thesis by simp
qed

lemma latRadian_one:
  "0 \<le> binary64 (binary64 (1 * binary64 pi) / 180)"
  "binary64 (binary64 (1 * binary64 pi) / 180) \<le> 1 / 2"
proof -
  have pi: "2 \<le> pi" "pi \<le> 4" using pi_ge_two pi_less_4 by simp_all
  have b1: "1 \<le> binary64 pi \<and> binary64 pi \<le> 5"
    using binary64_interval [of 2 pi 4] pi by simp
  have b2: "1 / 2 \<le> binary64 (1 * binary64 pi) \<and> binary64 (1 * binary64 pi) \<le> 6"
    using binary64_interval [of 1 "1 * binary64 pi" 5] b1 by simp
  have "1 / 360 \<le> binary64 (1 * binary64 pi) / 180"
    "binary64 (1 * binary64 pi) / 180 \<le> 6 / 180"
    using b2 by simp_all
  then have b3: "1 / 360 * (1 - 1 / 2 ^ 53) \<le> binary64 (binary64 (1 * binary64 pi) / 180)
      \<and> binary64 (binary64 (1 * binary64 pi) / 180) \<le> 6 / 180 * (1 + 1 / 2 ^ 53)"
    by (intro binary64_interval) simp_all
  from b3 show "0 \<le> binary64 (binary64 (1 * binary64 pi) / 180)" by simp
  from b3 show "binary64 (binary64 (1 * binary64 pi) / 180) \<le> 1 / 2" by simp
qed

lemma cos_ge_half:
  fixes x :: real
  assumes "0 \<le> x" and "x \<le> 1 / 2"
  shows "1 / 2 \<le> cos x"
proof -
  have "x \<le> pi / 3" using assms(2) pi_ge_two by simp
  then have "cos (pi / 3) \<le> cos x"
    using assms(1) by (intro cos_monotone_0_pi_le) simp_all
  then show ?thesis by (simp add: cos_60)
qed

lemma degLongKm_one:
  "50 \<le> binary64 (binary64 110.572833 * binary64 (cos (binary64 (binary64 (1 * binary64 pi) / 180))))"
proof -
  let ?x = "binary64 (binary64 (1 * binary64 pi) / 180)"
  have c: "1 / 2 \<le> cos ?x" using latRadian_one by (rule cos_ge_half)
  have cv: "49 / 100 \<le> binary64 (cos ?x)"
    using binary64_interval [of "1 / 2" "cos ?x" 1] c by simp
  have "110 * (49 / 100) \<le> binary64 110.572833 * binary64 (cos ?x)"
    using binary64_const_bounds(3) cv by (intro mult_mono) simp_all
  then have "53 \<le> binary64 110.572833 * binary64 (cos ?x)" by simp
  moreover have "binary64 110.572833 * binary64 (cos ?x) \<le> binary64 110.572833 * binary64 (cos ?x)"
    by simp
  ultimately have "53 * (1 - 1 / 2 ^ 53)
      \<le> binary64 (binary64 110.572833 * binary64 (cos ?x))"
    using binary64_interval [of 53 "binary64 110.572833 * binary64 (cos ?x)"
        "binary64 110.572833 * binary64 (cos ?x)"] by simp
  then show ?thesis by simp
qed

lemma binary64_const_tight:
  "1609.3 \<le> binary64 1609.344" "binary64 1609.344 \<le> 1609.4"
  "110.57 \<le> binary64 110.574235" "binary64 110.574235 \<le> 110.58"
  using binary64_interval [of "1609.344" "1609.344" "1609.344"]
        binary64_interval [of "110.574235" "110.574235" "110.574235"]
  by simp_all

lemma deltaLat_13:
  "1 / 2 ^ 54 < binary64 (binary64 (binary64 (13 / 2 ^ 51 * binary64 1609.344) / 1000)
                   / binary64 110.574235)"
  "binary64 (binary64 (binary64 (13 / 2 ^ 51 * binary64 1609.344) / 1000)
                   / binary64 110.574235) < 1 / 2 ^ 53"
proof -
  let ?c1 = "binary64 1609.344"
  let ?c3 = "binary64 110.574235"
  let ?p = "binary64 (13 / 2 ^ 51 * ?c1)"
  let ?q = "binary64 (?p / 1000)"
  have "13 / 2 ^ 51 * 1609.3 \<le> 13 / 2 ^ 51 * ?c1" "13 / 2 ^ 51 * ?c1 \<le> 13 / 2 ^ 51 * 1609.4"
    using binary64_const_tight(1,2) by simp_all
  then have "13 / 2 ^ 51 * 1609.3 * (1 - 1 / 2 ^ 53) \<le> ?p
      \<and> ?p \<le> 13 / 2 ^ 51 * 1609.4 * (1 + 1 / 2 ^ 53)"
    by (intro binary64_interval) simp_all
  then have p: "13 / 2 ^ 51 * 1609.2 \<le> ?p" "?p \<le> 13 / 2 ^ 51 * 1609.5" by simp_all
  then have "13 / 2 ^ 51 * 1.6092 \<le> ?p / 1000" "?p / 1000 \<le> 13 / 2 ^ 51 * 1.6095"
    by simp_all
  then have "13 / 2 ^ 51 * 1.6092 * (1 - 1 / 2 ^ 53) \<le> ?q
      \<and> ?q \<le> 13 / 2 ^ 51 * 1.6095 * (1 + 1 / 2 ^ 53)"
    by (intro binary64_interval) simp_all
  then have q: "13 / 2 ^ 51 * 1.6091 \<le> ?q" "?q \<le> 13 / 2 ^ 51 * 1.6096" by simp_all
  have c3: "110.57 \<le> ?c3" "?c3 \<le> 110.58" by (rule binary64_const_tight)+
  have up: "?q / ?c3 \<le> (13 / 2 ^ 51 * 1.6096) / 110.57"
    using q c3 by (intro frac_le) simp_all
  have "(13 / 2 ^ 51 * 1.6091) / 110.58 \<le> ?q / ?c3"
    using q c3 by (intro frac_le) simp_all
  with up have "(13 / 2 ^ 51 * 1.6091) / 110.58 * (1 - 1 / 2 ^ 53) \<le> binary64 (?q / ?c3)
      \<and> binary64 (?q / ?c3) \<le> (13 / 2 ^ 51 * 1.6096) / 110.57 * (1 + 1 / 2 ^ 53)"
    by (intro binary64_interval) simp_all
  then show "1 / 2 ^ 54 < binary64 (?q / ?c3)" "binary64 (?q / ?c3) < 1 / 2 ^ 53"
    by simp_all
qed

text \<open>Rounding is odd and monotone.\<close>

lemma round_half_even_cases:
  "round_half_even y = \<lfloor>y\<rfloor> \<or> round_half_even y = \<lfloor>y\<rfloor> + 1"
  by (simp add: round_half_even_def Let_def)

lemma round_half_even_mono:
  assumes "y1 \<le> y2"
  shows "round_half_even y1 \<le> round_half_even y2"
proof (cases "\<lfloor>y1\<rfloor> = \<lfloor>y2\<rfloor>")
  case True
  then show ?thesis using assms by (auto simp: round_half_even_def Let_def)
next
  case False
  moreover have "\<lfloor>y1\<rfloor> \<le> \<lfloor>y2\<rfloor>" using assms by (rule floor_mono)
  ultimately have "\<lfloor>y1\<rfloor> + 1 \<le> \<lfloor>y2\<rfloor>" by simp
  moreover have "round_half_even y1 \<le> \<lfloor>y1\<rfloor> + 1"
    using round_half_even_cases [of y1] by auto
  moreover have "\<lfloor>y2\<rfloor> \<le> round_half_even y2"
    using round_half_even_cases [of y2] by auto
  ultimately show ?thesis by linarith
qed

lemma round_half_even_of_int: "round_half_even (of_int n) = n"
  by (simp add: round_half_even_def)

lemma round_half_even_minus: "round_half_even (- y) = - round_half_even y"
proof (cases "y = of_int \<lfloor>y\<rfloor>")
  case True
  then obtain n where "y = of_int n" ..
  then have "round_half_even y = n" "round_half_even (- y) = - n"
    using round_half_even_of_int [of n] round_half_even_of_int [of "- n"] by simp_all
  then show ?thesis by simp
next
  case False
  have "of_int \<lfloor>y\<rfloor> \<le> y" "y < of_int \<lfloor>y\<rfloor> + 1" by linarith+
  from False have "of_int \<lfloor>y\<rfloor> \<noteq> y" by (rule not_sym)
  then have strict: "of_int \<lfloor>y\<rfloor> < y"
    using of_int_floor_le by (rule order.not_eq_order_implies_strict)
  have "of_int (- \<lfloor>y\<rfloor> - 1) \<le> - y" by simp linarith
  moreover have "- y < of_int (- \<lfloor>y\<rfloor> - 1) + 1" using strict by simp
  ultimately have fl: "\<lfloor>- y\<rfloor> = - \<lfloor>y\<rfloor> - 1" by (rule floor_unique)
  show ?thesis
    unfolding round_half_even_def Let_def fl by auto
qed

lemma quantum_minus: "quantum (- x) = quantum x"
  by (simp add: quantum_def)

lemma binary64_minus: "binary64 (- x) = - binary64 x"
  by (simp add: binary64_def quantum_minus round_half_even_minus)

lemma binary64_nonneg:
  assumes "0 \<le> x"
  shows "0 \<le> binary64 x"
proof -
  have "0 \<le> x / quantum x" using assms quantum_pos [of x] by simp
  then have "round_half_even 0 \<le> round_half_even (x / quantum x)"
    by (rule round_half_even_mono)
  then have "0 \<le> round_half_even (x / quantum x)"
    using round_half_even_of_int [of 0] by simp
  then show ?thesis using quantum_pos [of x] by (simp add: binary64_def)
qed

lemma powr_ratio_int:
  assumes "c \<le> a"
  shows "(2::real) powr of_int a / 2 powr of_int c = of_int (2 ^ nat (a - c))"
proof -
  have "(2::real) powr of_int a / 2 powr of_int c = 2 powr (of_int a - of_int c)"
    by (simp add: powr_diff)
  also have "of_int a - of_int c = real_of_int (a - c)" by simp
  also have "(2::real) powr of_int (a - c) = 2 ^ nat (a - c)"
    using assms powr_real_of_int [of 2 "a - c"] by simp
  finally show ?thesis by simp
qed

lemma binary64_le_grid:
  assumes "x \<noteq> 0" and q: "quantum x = 2 powr of_int k" and "k \<le> a"
    and "x \<le> 2 powr of_int a"
  shows "binary64 x \<le> 2 powr of_int a"
proof -
  have qpos: "0 < quantum x" by (rule quantum_pos)
  have ratio: "2 powr of_int a / quantum x = of_int (2 ^ nat (a - k))"
    unfolding q using assms(3) by (rule powr_ratio_int)
  have "x / quantum x \<le> 2 powr of_int a / quantum x"
    using assms(4) qpos by (simp add: divide_right_mono)
  then have "round_half_even (x / quantum x) \<le> round_half_even (of_int (2 ^ nat (a - k)))"
    unfolding ratio by (rule round_half_even_mono)
  then have "round_half_even (x / quantum x) \<le> 2 ^ nat (a - k)"
    by (simp only: round_half_even_of_int)
  then have "real_of_int (round_half_even (x / quantum x)) \<le> of_int (2 ^ nat (a - k))"
    by (simp only: of_int_le_iff)
  then have "of_int (round_half_even (x / quantum x)) * quantum x
      \<le> of_int (2 ^ nat (a - k)) * quantum x"
    using qpos by (intro mult_right_mono) simp_all
  also have "\<dots> = 2 powr of_int a" using ratio qpos by (simp add: field_simps)
  finally show ?thesis using assms(1) by (simp add: binary64_def)
qed

lemma binary64_ge_grid:
  assumes "x \<noteq> 0" and q: "quantum x = 2 powr of_int k" and "k \<le> a"
    and "2 powr of_int a \<le> x"
  shows "2 powr of_int a \<le> binary64 x"
proof -
  have qpos: "0 < quantum x" by (rule quantum_pos)
  have ratio: "2 powr of_int a / quantum x = of_int (2 ^ nat (a - k))"
    unfolding q using assms(3) by (rule powr_ratio_int)
  have "2 powr of_int a / quantum x \<le> x / quantum x"
    using assms(4) qpos by (simp add: divide_right_mono)
  then have "round_half_even (of_int (2 ^ nat (a - k))) \<le> round_half_even (x / quantum x)"
    unfolding ratio by (rule round_half_even_mono)
  then have "2 ^ nat (a - k) \<le> round_half_even (x / quantum x)"
    by (simp only: round_half_even_of_int)
  then have "real_of_int (2 ^ nat (a - k)) \<le> of_int (round_half_even (x / quantum x))"
    by (simp only: of_int_le_iff)
  then have "of_int (2 ^ nat (a - k)) * quantum x
      \<le> of_int (round_half_even (x / quantum x)) * quantum x"
    using qpos by (intro mult_right_mono) simp_all
  moreover have "of_int (2 ^ nat (a - k)) * quantum x = 2 powr of_int a"
    using ratio qpos by (simp add: field_simps)
  ultimately show ?thesis using assms(1) by (simp add: binary64_def)
qed

lemma binary64_mono_pos:
  assumes "0 < x" and "x \<le> y"
  shows "binary64 x \<le> binary64 y"
proof -
  define ex where "ex = \<lfloor>log 2 \<bar>x\<bar>\<rfloor>"
  define ey where "ey = \<lfloor>log 2 \<bar>y\<bar>\<rfloor>"
  define kx where "kx = max (ex - 52) (- 1074)"
  define ky where "ky = max (ey - 52) (- 1074)"
  have ypos: "0 < y" using assms by linarith
  have qx: "quantum x = 2 powr of_int kx" by (simp add: quantum_def kx_def ex_def)
  have qy: "quantum y = 2 powr of_int ky" by (simp add: quantum_def ky_def ey_def)
  have "log 2 x \<le> log 2 y" using assms by simp
  then have e: "ex \<le> ey" using assms ypos by (simp add: ex_def ey_def floor_mono)
  then have k: "kx \<le> ky" by (simp add: kx_def ky_def)
  show ?thesis
  proof (cases "kx = ky")
    case True
    then have same: "quantum y = quantum x" using qx qy by simp
    have "x / quantum x \<le> y / quantum x"
      using assms(2) quantum_pos [of x] by (simp add: divide_right_mono)
    then have "round_half_even (x / quantum x) \<le> round_half_even (y / quantum x)"
      by (rule round_half_even_mono)
    then have "real_of_int (round_half_even (x / quantum x))
        \<le> of_int (round_half_even (y / quantum x))"
      by (simp only: of_int_le_iff)
    then have "of_int (round_half_even (x / quantum x)) * quantum x
        \<le> of_int (round_half_even (y / quantum x)) * quantum x"
      using quantum_pos [of x] by (intro mult_right_mono) simp_all
    then show ?thesis using assms(1) ypos same by (simp add: binary64_def)
  next
    case False
    with k have lt: "kx < ky" by simp
    then have ky_eq: "ky = ey - 52" unfolding kx_def ky_def by linarith
    from lt have "ex < ey" unfolding kx_def ky_eq by linarith
    then have step: "ex + 1 \<le> ey" by simp
    have xb: "x < 2 powr of_int (ex + 1)"
      using floor_log_eq_powr_iff [of x 2 ex] assms(1) by (simp add: ex_def)
    have yb: "2 powr of_int ey \<le> y"
      using floor_log_eq_powr_iff [of y 2 ey] ypos by (simp add: ey_def)
    have "(2::real) powr of_int (ex + 1) \<le> 2 powr of_int ey"
      using step by simp
    with xb have xle: "x \<le> 2 powr of_int ey" by linarith
    have "kx \<le> ey" using lt ky_eq by simp
    with qx have "binary64 x \<le> 2 powr of_int ey"
      using assms(1) xle by (intro binary64_le_grid [of x kx ey]) simp_all
    moreover have "ky \<le> ey" using ky_eq by simp
    with qy have "2 powr of_int ey \<le> binary64 y"
      using ypos yb by (intro binary64_ge_grid [of y ky ey]) simp_all
    ultimately show ?thesis by linarith
  qed
qed

lemma binary64_mono:
  assumes "x \<le> y"
  shows "binary64 x \<le> binary64 y"
proof -
  consider "0 < x" | "x \<le> 0" "0 \<le> y" | "y < 0" by linarith
  then show ?thesis
  proof cases
    case 1
    then show ?thesis using assms by (rule binary64_mono_pos)
  next
    case 2
    have "0 \<le> binary64 (- x)" using 2(1) by (intro binary64_nonneg) simp
    then have "binary64 x \<le> 0" by (simp add: binary64_minus)
    moreover have "0 \<le> binary64 y" using 2(2) by (rule binary64_nonneg)
    ultimately show ?thesis by linarith
  next
    case 3
    then have "0 < - y" "- y \<le> - x" using assms by simp_all
    then have "binary64 (- y) \<le> binary64 (- x)" by (rule binary64_mono_pos)
    then show ?thesis by (simp add: binary64_minus)
  qed
qed

text \<open>
  Around the point (1, 1) a range of less than \<open>2 powr - 54\<close> miles in absolute value is
  absorbed by the rounding of the four sums: the box is the point itself.
\<close>

lemma box64_lat_collapse:
  assumes "\<bar>r\<bar> < 1 / 2 ^ 54"
  shows "topLat (getBoundingBoxFromCoordinatesAndRange binary64 1 lon r) = 1"
    and "bottomLat (getBoundingBoxFromCoordinatesAndRange binary64 1 lon r) = 1"
proof -
  let ?D = "binary64 (binary64 (binary64 (r * binary64 1609.344) / 1000) / binary64 110.574235)"
  have "\<bar>?D\<bar> \<le> \<bar>r\<bar>" using binary64_const_bounds(1) by (intro delta_abs) simp
  with assms have small: "\<bar>?D\<bar> < 1 / 2 ^ 54" "\<bar>- ?D\<bar> < 1 / 2 ^ 54" by simp_all
  have "binary64 (1 + ?D) = 1" using small(1) by (rule binary64_near_one)
  then show "topLat (getBoundingBoxFromCoordinatesAndRange binary64 1 lon r) = 1"
    by (simp add: getBoundingBoxFromCoordinatesAndRange_def Let_def)
  have "binary64 (1 + - ?D) = 1" using small(2) by (rule binary64_near_one)
  then show "bottomLat (getBoundingBoxFromCoordinatesAndRange binary64 1 lon r) = 1"
    by (simp add: getBoundingBoxFromCoordinatesAndRange_def Let_def)
qed

lemma box64_lng_collapse:
  assumes "\<bar>r\<bar> < 1 / 2 ^ 54"
  shows "leftLng (getBoundingBoxFromCoordinatesAndRange binary64 1 1 r) = 1"
    and "rightLng (getBoundingBoxFromCoordinatesAndRange binary64 1 1 r) = 1"
proof -
  let ?deg = "binary64 (binary64 110.572833
                * binary64 (cos (binary64 (binary64 (1 * binary64 pi) / 180))))"
  let ?D = "binary64 (binary64 (binary64 (r * binary64 1609.344) / 1000) / ?deg)"
  have "\<bar>?D\<bar> \<le> \<bar>r\<bar>" using degLongKm_one by (rule delta_abs)
  with assms have small: "\<bar>?D\<bar> < 1 / 2 ^ 54" "\<bar>- ?D\<bar> < 1 / 2 ^ 54" by simp_all
  have "binary64 (1 + - ?D) = 1" using small(2) by (rule binary64_near_one)
  then show "leftLng (getBoundingBoxFromCoordinatesAndRange binary64 1 1 r) = 1"
    by (simp add: getBoundingBoxFromCoordinatesAndRange_def Let_def)
  have "binary64 (1 + ?D) = 1" using small(1) by (rule binary64_near_one)
  then show "rightLng (getBoundingBoxFromCoordinatesAndRange binary64 1 1 r) = 1"
    by (simp add: getBoundingBoxFromCoordinatesAndRange_def Let_def)
qed

text \<open>
  The box in double arithmetic: where the number of kilometres per degree is not negative
  the delta grows with the range, and the box of range 0 is the rounded centre.
\<close>

lemma binary64_zero: "binary64 0 = 0"
  by (simp add: binary64_def)

lemma binary64_abs_mono:
  assumes "\<bar>z\<bar> \<le> B"
  shows "\<bar>binary64 z\<bar> \<le> binary64 B"
proof -
  from assms have "z \<le> B" "- B \<le> z" by linarith+
  then have "binary64 z \<le> binary64 B" "binary64 (- B) \<le> binary64 z"
    by (simp_all only: binary64_mono)
  then show ?thesis by (simp add: binary64_minus abs_le_iff)
qed

lemma delta64_mono:
  assumes "0 \<le> deg" and "r1 \<le> r2"
  shows "binary64 (binary64 (binary64 (r1 * binary64 1609.344) / 1000) / deg)
       \<le> binary64 (binary64 (binary64 (r2 * binary64 1609.344) / 1000) / deg)"
proof -
  have "r1 * binary64 1609.344 \<le> r2 * binary64 1609.344"
    using assms(2) binary64_const_bounds(5) by (intro mult_right_mono) simp_all
  then have "binary64 (r1 * binary64 1609.344) \<le> binary64 (r2 * binary64 1609.344)"
    by (rule binary64_mono)
  then have "binary64 (r1 * binary64 1609.344) / 1000 \<le> binary64 (r2 * binary64 1609.344) / 1000"
    by simp
  then have "binary64 (binary64 (r1 * binary64 1609.344) / 1000)
      \<le> binary64 (binary64 (r2 * binary64 1609.344) / 1000)"
    by (rule binary64_mono)
  then have "binary64 (binary64 (r1 * binary64 1609.344) / 1000) / deg
      \<le> binary64 (binary64 (r2 * binary64 1609.344) / 1000) / deg"
    using assms(1) by (rule divide_right_mono)
  then show ?thesis by (rule binary64_mono)
qed

lemma box64_zero:
  "topLat (getBoundingBoxFromCoordinatesAndRange binary64 lat lon 0) = binary64 lat"
  "bottomLat (getBoundingBoxFromCoordinatesAndRange binary64 lat lon 0) = binary64 lat"
  "leftLng (getBoundingBoxFromCoordinatesAndRange binary64 lat lon 0) = binary64 lon"
  "rightLng (getBoundingBoxFromCoordinatesAndRange binary64 lat lon 0) = binary64 lon"
  by (simp_all add: getBoundingBoxFromCoordinatesAndRange_def Let_def binary64_zero)

subsection \<open>Values of roundings\<close>

text \<open>
  A number whose quotient by the spacing of its binade is within a half of an integer rounds
  to that integer times the spacing. Integers below \<open>2 ^ 53\<close> in absolute value and powers
  of two down to \<open>2 powr - 1022\<close> are doubles.
\<close>

lemma round_half_even_near:
  assumes "\<bar>y - of_int n\<bar> < 1 / 2"
  shows "round_half_even y = n"
proof (cases "of_int n \<le> y")
  case True
  then have "\<lfloor>y\<rfloor> = n" using assms by (intro floor_unique) linarith+
  then show ?thesis using assms True by (simp add: round_half_even_def)
next
  case False
  then have "\<lfloor>y\<rfloor> = n - 1" using assms by (intro floor_unique) (simp, linarith)+
  then show ?thesis using assms False by (simp add: round_half_even_def)
qed

lemma binary64_eval:
  assumes "2 powr of_int k \<le> \<bar>x\<bar>" and "\<bar>x\<bar> < 2 powr of_int (k + 1)" and "- 1022 \<le> k"
    and "\<bar>x / 2 powr of_int (k - 52) - of_int n\<bar> < 1 / 2"
  shows "binary64 x = of_int n * 2 powr of_int (k - 52)"
proof -
  have "(0::real) < 2 powr of_int k" by simp
  with assms(1) have "0 < \<bar>x\<bar>" by (rule less_le_trans [rotated])
  then have nz: "x \<noteq> 0" by simp
  have q: "quantum x = 2 powr of_int (k - 52)"
    using assms(1,2,3) by (rule quantum_binade)
  have "round_half_even (x / 2 powr of_int (k - 52)) = n"
    using assms(4) by (rule round_half_even_near)
  with nz q show ?thesis by (rule binary64_eq)
qed

lemma binary64_of_int:
  assumes "\<bar>n\<bar> < 2 ^ 53"
  shows "binary64 (of_int n) = of_int n"
proof (cases "n = 0")
  case True
  then show ?thesis by (simp add: binary64_def)
next
  case False
  define k where "k = \<lfloor>log 2 \<bar>real_of_int n\<bar>\<rfloor>"
  have pos: "0 < \<bar>real_of_int n\<bar>" using False by simp
  have one: "1 \<le> \<bar>real_of_int n\<bar>" using False by (simp add: abs_if)
  have bounds: "2 powr of_int k \<le> \<bar>real_of_int n\<bar>" "\<bar>real_of_int n\<bar> < 2 powr of_int (k + 1)"
    using floor_log_eq_powr_iff [of "\<bar>real_of_int n\<bar>" 2 k] pos by (simp_all add: k_def)
  have "0 \<le> log 2 \<bar>real_of_int n\<bar>" using one by simp
  then have k0: "0 \<le> k" by (simp add: k_def)
  have "\<bar>real_of_int n\<bar> < 2 ^ 53"
    using assms by (metis of_int_abs of_int_less_iff of_int_numeral of_int_power)
  then have "2 powr of_int k < (2::real) powr of_int 53"
    using bounds(1) by (simp add: powr_numeral)
  then have "real_of_int k < real_of_int 53" by (rule powr_less_cancel) simp
  then have "k < 53" by (simp only: of_int_less_iff)
  then have k52: "k \<le> 52" by simp
  have q: "quantum (of_int n) = 2 powr of_int (k - 52)"
    using bounds k0 by (intro quantum_binade) simp_all
  have "real_of_int (k - 52) = - real_of_int (52 - k)" by simp
  then have "(2::real) powr of_int (k - 52) = 1 / 2 powr of_int (52 - k)"
    by (simp only: powr_minus_divide)
  also have "\<dots> = 1 / of_int (2 ^ nat (52 - k))"
    using k52 powr_real_of_int [of 2 "52 - k"] by simp
  finally have qv: "(2::real) powr of_int (k - 52) = 1 / of_int (2 ^ nat (52 - k))" .
  have "real_of_int n / 2 powr of_int (k - 52) = of_int (n * 2 ^ nat (52 - k))"
    unfolding qv by simp
  then have "round_half_even (real_of_int n / 2 powr of_int (k - 52)) = n * 2 ^ nat (52 - k)"
    by (simp only: round_half_even_of_int)
  with False q have "binary64 (of_int n) = of_int (n * 2 ^ nat (52 - k)) * 2 powr of_int (k - 52)"
    by (intro binary64_eq) simp_all
  then show ?thesis unfolding qv by simp
qed

lemma binary64_numeral:
  "\<bar>numeral w :: int\<bar> < 2 ^ 53 \<Longrightarrow> binary64 (numeral w) = numeral w"
  using binary64_of_int [of "numeral w"] by simp


lemma binary64_two_pow_neg:
  assumes "n \<le> 1022"
  shows "binary64 (1 / 2 ^ n) = 1 / 2 ^ n"
proof -
  have x: "(1::real) / 2 ^ n = 2 powr of_int (- int n)"
    by (simp add: powr_minus_divide powr_realpow)
  have "binary64 (2 powr of_int (- int n)) = of_int (2 ^ 52) * 2 powr of_int (- int n - 52)"
  proof (rule binary64_eval)
    show "2 powr of_int (- int n) \<le> \<bar>2 powr real_of_int (- int n)\<bar>" by simp
    show "\<bar>2 powr real_of_int (- int n)\<bar> < 2 powr of_int (- int n + 1)" by simp
    show "- 1022 \<le> - int n" using assms by simp
    have "2 powr real_of_int (- int n) / 2 powr real_of_int (- int n - 52) = 2 powr 52"
      by (simp add: powr_diff [symmetric])
    then show "\<bar>2 powr real_of_int (- int n) / 2 powr real_of_int (- int n - 52)
        - of_int (2 ^ 52)\<bar> < 1 / 2" by simp
  qed
  also have "\<dots> = 2 powr 52 * 2 powr of_int (- int n - 52)" by simp
  also have "\<dots> = 2 powr (52 + of_int (- int n - 52))" by (rule powr_add [symmetric])
  also have "\<dots> = 2 powr of_int (- int n)" by simp
  finally show ?thesis unfolding x .
qed

subsection \<open>The double nearest to pi\<close>

text \<open>
  The partial sums of the series of the arc tangent enclose it, alternately from below and
  from above; with Machin's formula they give \<open>pi\<close> to sixteen decimals.
\<close>

lemma arctan_partial_sums:
  fixes x :: real
  assumes "0 < x" and "x \<le> 1"
  shows "(\<Sum>i<2 * n. (- 1) ^ i * (1 / real (i * 2 + 1) * x ^ (i * 2 + 1))) \<le> arctan x"
    and "arctan x \<le> (\<Sum>i<2 * n + 1. (- 1) ^ i * (1 / real (i * 2 + 1) * x ^ (i * 2 + 1)))"
proof -
  let ?a = "\<lambda>i. 1 / real (i * 2 + 1) * x ^ (i * 2 + 1)"
  have x: "\<bar>x\<bar> \<le> 1" using assms by simp
  have z: "?a \<longlonglongrightarrow> 0" using x by (rule zeroseq_arctan_series)
  have m: "monoseq ?a" using x by (rule monoseq_arctan_series)
  have "0 < ?a 0" using assms by simp
  with summable_Leibniz(2) [OF z m]
  have "(\<Sum>i. (- 1) ^ i * ?a i) \<in> {\<Sum>i<2 * n. (- 1) ^ i * ?a i .. \<Sum>i<2 * n + 1. (- 1) ^ i * ?a i}"
    by blast
  moreover have "arctan x = (\<Sum>i. (- 1) ^ i * ?a i)" using x by (rule arctan_series)
  ultimately show "(\<Sum>i<2 * n. (- 1) ^ i * ?a i) \<le> arctan x"
    and "arctan x \<le> (\<Sum>i<2 * n + 1. (- 1) ^ i * ?a i)"
    by simp_all
qed

lemma arctan_5_bounds:
  "0.1973955598498807582 \<le> arctan (1 / 5)" "arctan (1 / 5) \<le> 0.1973955598498807584"
proof -
  have "(0.1973955598498807582 :: real)
      \<le> (\<Sum>i<2 * 6. (- 1) ^ i * (1 / real (i * 2 + 1) * (1 / 5) ^ (i * 2 + 1)))"
    by (simp add: eval_nat_numeral)
  also have "\<dots> \<le> arctan (1 / 5)" by (rule arctan_partial_sums) simp_all
  finally show "0.1973955598498807582 \<le> arctan (1 / 5)" .
  have "arctan (1 / 5 :: real)
      \<le> (\<Sum>i<2 * 6 + 1. (- 1) ^ i * (1 / real (i * 2 + 1) * (1 / 5) ^ (i * 2 + 1)))"
    by (rule arctan_partial_sums) simp_all
  also have "\<dots> \<le> 0.1973955598498807584"
    by (simp add: eval_nat_numeral)
  finally show "arctan (1 / 5) \<le> 0.1973955598498807584" .
qed

lemma arctan_239_bounds:
  "0.004184076002074723864 \<le> arctan (1 / 239)"
  "arctan (1 / 239) \<le> 0.004184076002074723865"
proof -
  have "(0.004184076002074723864 :: real)
      \<le> (\<Sum>i<2 * 2. (- 1) ^ i * (1 / real (i * 2 + 1) * (1 / 239) ^ (i * 2 + 1)))"
    by (simp add: eval_nat_numeral)
  also have "\<dots> \<le> arctan (1 / 239)" by (rule arctan_partial_sums) simp_all
  finally show "0.004184076002074723864 \<le> arctan (1 / 239)" .
  have "arctan (1 / 239 :: real)
      \<le> (\<Sum>i<2 * 2 + 1. (- 1) ^ i * (1 / real (i * 2 + 1) * (1 / 239) ^ (i * 2 + 1)))"
    by (rule arctan_partial_sums) simp_all
  also have "\<dots> \<le> 0.004184076002074723865"
    by (simp add: eval_nat_numeral)
  finally show "arctan (1 / 239) \<le> 0.004184076002074723865" .
qed

lemma pi_bounds: "3.1415926535897932 \<le> pi" "pi \<le> 3.1415926535897933"
proof -
  have "pi = 16 * arctan (1 / 5) - 4 * arctan (1 / 239)" using machin by simp
  then show "3.1415926535897932 \<le> pi" "pi \<le> 3.1415926535897933"
    using arctan_5_bounds arctan_239_bounds by simp_all
qed

text \<open>
  \<open>Math.PI\<close>, and the roundings that bound the latitude in radians: of 90 times it, and of
  the 180th of that.
\<close>

lemma binary64_pi: "binary64 pi = 884279719003555 / 2 ^ 48"
proof -
  have "binary64 pi = of_int 7074237752028440 * 2 powr of_int (1 - 52)"
  proof (rule binary64_eval)
    show "2 powr of_int 1 \<le> \<bar>pi\<bar>" using pi_ge_two by simp
    show "\<bar>pi\<bar> < 2 powr of_int (1 + 1)" using pi_less_4 by simp
    show "- 1022 \<le> (1::int)" by simp
    define x where "x = pi * 2 ^ 51"
    have e: "pi / 2 powr of_int (1 - 52) = x" by (simp add: x_def powr_neg_numeral)
    have "7074237752028440 - 1 / 2 < x" unfolding x_def using pi_bounds(1) by simp
    moreover have "x < 7074237752028440 + 1 / 2" unfolding x_def using pi_bounds(2) by simp
    ultimately have "\<bar>x - 7074237752028440\<bar> < 1 / 2" unfolding abs_less_iff by linarith
    then show "\<bar>pi / 2 powr of_int (1 - 52) - of_int 7074237752028440\<bar> < 1 / 2"
      unfolding e by simp
  qed
  then show ?thesis by (simp add: powr_neg_numeral)
qed

lemma binary64_ninety_pi:
  "binary64 (90 * (884279719003555 / 2 ^ 48)) = 4974073419394997 / 2 ^ 44"
proof -
  have "binary64 (90 * (884279719003555 / 2 ^ 48))
      = of_int 4974073419394997 * 2 powr of_int (8 - 52)"
    by (rule binary64_eval) (simp_all add: powr_neg_numeral abs_less_iff)
  then show ?thesis by (simp add: powr_neg_numeral)
qed

lemma binary64_half_pi:
  "binary64 (4974073419394997 / 2 ^ 44 / 180) = 884279719003555 / 2 ^ 49"
proof -
  have "binary64 (4974073419394997 / 2 ^ 44 / 180)
      = of_int 7074237752028440 * 2 powr of_int (0 - 52)"
    by (rule binary64_eval) (simp_all add: powr_neg_numeral abs_less_iff)
  then show ?thesis by (simp add: powr_neg_numeral)
qed

text \<open>
  For every latitude between -90 and 90 the latitude in radians, as doubles compute it, is at
  most the double nearest to \<open>pi / 2\<close> in absolute value, and this double is below \<open>pi / 2\<close>.
\<close>

lemma latRadian_binary64:
  assumes "\<bar>lat\<bar> \<le> 90"
  shows "\<bar>binary64 (binary64 (lat * binary64 pi) / 180)\<bar> \<le> 884279719003555 / 2 ^ 49"
proof -
  let ?P = "884279719003555 / 2 ^ 48 :: real"
  have "\<bar>lat * ?P\<bar> = \<bar>lat\<bar> * ?P" by (simp add: abs_mult)
  also have "\<dots> \<le> 90 * ?P" using assms by (intro mult_right_mono) simp_all
  finally have "\<bar>binary64 (lat * ?P)\<bar> \<le> binary64 (90 * ?P)" by (rule binary64_abs_mono)
  then have a: "\<bar>binary64 (lat * ?P)\<bar> \<le> 4974073419394997 / 2 ^ 44"
    unfolding binary64_ninety_pi .
  have "\<bar>binary64 (lat * ?P) / 180\<bar> = \<bar>binary64 (lat * ?P)\<bar> / 180" by simp
  also have "\<dots> \<le> 4974073419394997 / 2 ^ 44 / 180" using a by (rule divide_right_mono) simp
  finally have "\<bar>binary64 (binary64 (lat * ?P) / 180)\<bar>
      \<le> binary64 (4974073419394997 / 2 ^ 44 / 180)"
    by (rule binary64_abs_mono)
  then show ?thesis unfolding binary64_half_pi binary64_pi .
qed

text \<open>
  The cosine of the latitude in radians is positive, also at the latitudes 90 and -90: it is
  at least the sine of half the distance from \<open>Math.PI\<close> to \<open>pi\<close>.
\<close>

lemma sin_lower:
  fixes x :: real
  assumes "0 \<le> x" and "x \<le> 1"
  shows "x / 2 \<le> sin x"
proof -
  have "\<bar>sin x - (\<Sum>m<2. sin_coeff m * x ^ m)\<bar> \<le> inverse (fact 2) * \<bar>x\<bar> ^ 2"
    by (rule Maclaurin_sin_bound)
  then have "\<bar>sin x - x\<bar> \<le> x\<^sup>2 / 2"
    by (simp add: sin_coeff_def eval_nat_numeral)
  moreover have "x\<^sup>2 \<le> x" using assms by (simp add: power2_eq_square mult_left_le)
  ultimately show ?thesis by linarith
qed

lemma cos_latRadian_binary64:
  assumes "\<bar>lat\<bar> \<le> 90"
  shows "1 / 2 ^ 56 \<le> cos (binary64 (binary64 (lat * binary64 pi) / 180))"
    and "cos (binary64 (binary64 (lat * binary64 pi) / 180)) \<le> 1"
proof -
  let ?x = "binary64 (binary64 (lat * binary64 pi) / 180)"
  let ?h = "884279719003555 / 2 ^ 49 :: real"
  have x: "\<bar>?x\<bar> \<le> ?h" using assms by (rule latRadian_binary64)
  have h: "?h \<le> pi" using pi_bounds(1) by simp
  have "cos ?h \<le> cos \<bar>?x\<bar>" using _ x h by (rule cos_monotone_0_pi_le) simp
  then have "cos ?h \<le> cos ?x" by (simp only: cos_abs_real)
  moreover have "cos ?h = sin (pi / 2 - ?h)" by (simp add: sin_diff)
  moreover have "(pi / 2 - ?h) / 2 \<le> sin (pi / 2 - ?h)"
    using pi_bounds by (intro sin_lower) simp_all
  moreover have "1 / 2 ^ 56 \<le> (pi / 2 - ?h) / 2" using pi_bounds(1) by simp
  ultimately show "1 / 2 ^ 56 \<le> cos ?x" by linarith
  show "cos ?x \<le> 1" by (rule cos_le_one)
qed

lemma degLongKm_binary64:
  assumes "\<bar>lat\<bar> \<le> 90"
  shows "0 < binary64 (binary64 110.572833
            * binary64 (cos (binary64 (binary64 (lat * binary64 pi) / 180))))"
    and "binary64 (binary64 110.572833
            * binary64 (cos (binary64 (binary64 (lat * binary64 pi) / 180)))) \<le> 111"
proof -
  let ?c = "cos (binary64 (binary64 (lat * binary64 pi) / 180))"
  let ?k = "binary64 110.572833"
  note c = cos_latRadian_binary64 [OF assms]
  have "binary64 (1 / 2 ^ 56) \<le> binary64 ?c" using c(1) by (rule binary64_mono)
  moreover have "binary64 (1 / 2 ^ 56) = 1 / 2 ^ 56" by (rule binary64_two_pow_neg) simp
  ultimately have lo: "1 / 2 ^ 56 \<le> binary64 ?c" by simp
  have "binary64 ?c \<le> binary64 1" using c(2) by (rule binary64_mono)
  then have hi: "binary64 ?c \<le> 1" by (simp only: binary64_one)
  have "1 * (1 / 2 ^ 56) \<le> ?k * binary64 ?c"
    using lo binary64_const_bounds(3) by (intro mult_mono) simp_all
  then have "binary64 (1 / 2 ^ 56) \<le> binary64 (?k * binary64 ?c)"
    by (intro binary64_mono) simp
  moreover have "binary64 (1 / 2 ^ 56) = 1 / 2 ^ 56" by (rule binary64_two_pow_neg) simp
  ultimately have "1 / 2 ^ 56 \<le> binary64 (?k * binary64 ?c)" by simp
  moreover have "(0::real) < 1 / 2 ^ 56" by simp
  ultimately show "0 < binary64 (?k * binary64 ?c)" by (rule less_le_trans [rotated])
  have "?k * binary64 ?c \<le> 111 * 1"
    using hi lo binary64_const_bounds(3,4) by (intro mult_mono) simp_all
  then have "binary64 (?k * binary64 ?c) \<le> binary64 111" by (intro binary64_mono) simp
  then show "binary64 (?k * binary64 ?c) \<le> 111" by (simp add: binary64_numeral)
qed

subsection \<open>The box in double arithmetic, for every latitude\<close>

lemma box64_mono:
  assumes "\<bar>lat\<bar> \<le> 90" and "r1 \<le> r2"
  shows "topLat (getBoundingBoxFromCoordinatesAndRange binary64 lat lon r1)
           \<le> topLat (getBoundingBoxFromCoordinatesAndRange binary64 lat lon r2)"
    and "bottomLat (getBoundingBoxFromCoordinatesAndRange binary64 lat lon r2)
           \<le> bottomLat (getBoundingBoxFromCoordinatesAndRange binary64 lat lon r1)"
    and "rightLng (getBoundingBoxFromCoordinatesAndRange binary64 lat lon r1)
           \<le> rightLng (getBoundingBoxFromCoordinatesAndRange binary64 lat lon r2)"
    and "leftLng (getBoundingBoxFromCoordinatesAndRange binary64 lat lon r2)
           \<le> leftLng (getBoundingBoxFromCoordinatesAndRange binary64 lat lon r1)"
proof -
  have c3: "0 \<le> binary64 110.574235" using binary64_const_bounds(1) by simp
  have c4: "0 \<le> binary64 (binary64 110.572833
            * binary64 (cos (binary64 (binary64 (lat * binary64 pi) / 180))))"
    using degLongKm_binary64(1) [OF assms(1)] by simp
  note dlat = delta64_mono [OF c3 assms(2)]
  note dlng = delta64_mono [OF c4 assms(2)]
  show "topLat (getBoundingBoxFromCoordinatesAndRange binary64 lat lon r1)
           \<le> topLat (getBoundingBoxFromCoordinatesAndRange binary64 lat lon r2)"
    using dlat by (simp add: getBoundingBoxFromCoordinatesAndRange_def Let_def binary64_mono)
  show "bottomLat (getBoundingBoxFromCoordinatesAndRange binary64 lat lon r2)
           \<le> bottomLat (getBoundingBoxFromCoordinatesAndRange binary64 lat lon r1)"
    using dlat by (simp add: getBoundingBoxFromCoordinatesAndRange_def Let_def binary64_mono)
  show "rightLng (getBoundingBoxFromCoordinatesAndRange binary64 lat lon r1)
           \<le> rightLng (getBoundingBoxFromCoordinatesAndRange binary64 lat lon r2)"
    using dlng by (simp add: getBoundingBoxFromCoordinatesAndRange_def Let_def binary64_mono)
  show "leftLng (getBoundingBoxFromCoordinatesAndRange binary64 lat lon r2)
           \<le> leftLng (getBoundingBoxFromCoordinatesAndRange binary64 lat lon r1)"
    using dlng by (simp add: getBoundingBoxFromCoordinatesAndRange_def Let_def binary64_mono)
qed

lemma box64_ordered:
  assumes "\<bar>lat\<bar> \<le> 90" and "0 \<le> r"
  shows "bottomLat (getBoundingBoxFromCoordinatesAndRange binary64 lat lon r)
           \<le> topLat (getBoundingBoxFromCoordinatesAndRange binary64 lat lon r)"
    and "leftLng (getBoundingBoxFromCoordinatesAndRange binary64 lat lon r)
           \<le> rightLng (getBoundingBoxFromCoordinatesAndRange binary64 lat lon r)"
  using box64_mono [OF assms, of lon] by (simp_all add: box64_zero)

lemma box64_inverted:
  assumes "\<bar>lat\<bar> \<le> 90" and "r \<le> 0"
  shows "topLat (getBoundingBoxFromCoordinatesAndRange binary64 lat lon r)
           \<le> bottomLat (getBoundingBoxFromCoordinatesAndRange binary64 lat lon r)"
    and "rightLng (getBoundingBoxFromCoordinatesAndRange binary64 lat lon r)
           \<le> leftLng (getBoundingBoxFromCoordinatesAndRange binary64 lat lon r)"
  using box64_mono [OF assms, of lon] by (simp_all add: box64_zero)

lemma quantum_subnormal:
  assumes "x \<noteq> 0" and "\<bar>x\<bar> < 1 / 2 ^ 1022"
  shows "quantum x = 1 / 2 ^ 1074"
proof -
  have pos: "0 < \<bar>x\<bar>" using assms(1) by simp
  have "(2::real) powr of_int (- 1022) = 1 / 2 ^ 1022"
    by (simp add: powr_neg_numeral)
  then have "log 2 \<bar>x\<bar> < log 2 (2 powr of_int (- 1022))"
    using assms(2) pos by (simp del: log_powr_cancel of_int_minus)
  then have "log 2 \<bar>x\<bar> < of_int (- 1022)" by simp
  then have "\<lfloor>log 2 \<bar>x\<bar>\<rfloor> < - 1022" by (simp only: floor_less_iff)
  then have "\<lfloor>log 2 \<bar>x\<bar>\<rfloor> - 52 \<le> - 1074" by linarith
  then have "max (\<lfloor>log 2 \<bar>x\<bar>\<rfloor> - 52) (- 1074) = - 1074" by (rule max_absorb2)
  then have "quantum x = 2 powr of_int (- 1074)" by (simp only: quantum_def)
  then show ?thesis by (simp add: powr_neg_numeral)
qed

lemma le_add_nonneg:
  fixes a b e :: real
  assumes "a \<le> e" and "0 \<le> b"
  shows "a \<le> b + e"
  using assms by linarith

text \<open>
  The error of one rounding: at most the fraction \<open>2 powr - 53\<close> of the number, or half the
  spacing of the subnormal range.
\<close>

lemma binary64_abs_error: "\<bar>binary64 x - x\<bar> \<le> \<bar>x\<bar> / 2 ^ 53 + 1 / 2 ^ 1075"
proof -
  consider "x = 0" | "1 / 2 ^ 1022 \<le> \<bar>x\<bar>" | "x \<noteq> 0" "\<bar>x\<bar> < 1 / 2 ^ 1022" by linarith
  then show ?thesis
  proof cases
    case 1
    then show ?thesis by (simp add: binary64_zero)
  next
    case 2
    then have "\<bar>binary64 x - x\<bar> \<le> \<bar>x\<bar> / 2 ^ 53" by (rule binary64_relative)
    then show ?thesis by simp
  next
    case 3
    have "\<bar>binary64 x - x\<bar> \<le> quantum x / 2" by (rule binary64_error)
    also have "\<dots> = 1 / 2 ^ 1075" unfolding quantum_subnormal [OF 3] by simp
    finally have "\<bar>binary64 x - x\<bar> \<le> 1 / 2 ^ 1075" .
    moreover have "0 \<le> \<bar>x\<bar> / 2 ^ 53" by simp
    ultimately show ?thesis by (rule le_add_nonneg)
  qed
qed

lemma binary64_less:
  assumes "x + (\<bar>x\<bar> + \<bar>y\<bar>) / 2 ^ 53 + 1 / 2 ^ 1074 < y"
  shows "binary64 x < binary64 y"
proof -
  have "binary64 x \<le> x + (\<bar>x\<bar> / 2 ^ 53 + 1 / 2 ^ 1075)"
    using binary64_abs_error [of x] by linarith
  moreover have "y - (\<bar>y\<bar> / 2 ^ 53 + 1 / 2 ^ 1075) \<le> binary64 y"
    using binary64_abs_error [of y] by linarith
  moreover have "x + (\<bar>x\<bar> / 2 ^ 53 + 1 / 2 ^ 1075) < y - (\<bar>y\<bar> / 2 ^ 53 + 1 / 2 ^ 1075)"
    using assms by (simp add: add_divide_distrib)
  ultimately show ?thesis by argo
qed

lemma binary64_lower:
  assumes "1 / 2 ^ 1022 \<le> lo" and "lo \<le> x"
  shows "lo * (999 / 1000) \<le> binary64 x"
proof -
  have "(0::real) < 1 / 2 ^ 1022" by simp
  with assms(1) have pos: "0 < lo" by (rule less_le_trans [rotated])
  have "lo * (1 - 1 / 2 ^ 53) \<le> binary64 x"
    using binary64_interval [OF assms order_refl] by simp
  moreover have "lo * (999 / 1000) \<le> lo * (1 - 1 / 2 ^ 53)"
    using pos by (intro mult_left_mono) simp_all
  ultimately show ?thesis by linarith
qed

text \<open>
  A range of at least \<open>2 powr - 1000\<close> miles gives a delta of at least a seventieth of it,
  for a positive number of kilometres per degree up to 111.
\<close>

lemma delta64_lower:
  assumes "0 < deg" and "deg \<le> 111" and "1 / 2 ^ 1000 \<le> r"
  shows "r / 70 \<le> binary64 (binary64 (binary64 (r * binary64 1609.344) / 1000) / deg)"
proof -
  let ?c1 = "binary64 1609.344"
  let ?p = "binary64 (r * ?c1)"
  let ?km = "binary64 (?p / 1000)"
  have "(0::real) < 1 / 2 ^ 1000" by simp
  with assms(3) have r: "0 < r" by (rule less_le_trans [rotated])
  have "r * 1609 \<le> r * ?c1" using r binary64_const_bounds(5) by (intro mult_left_mono) simp_all
  moreover have "1 / 2 ^ 1022 \<le> r * 1609" using assms(3) by simp
  ultimately have p: "r * 1609 * (999 / 1000) \<le> ?p" by (rule binary64_lower [rotated])
  then have "r * 1609 * (999 / 1000) / 1000 \<le> ?p / 1000" by simp
  moreover have "1 / 2 ^ 1022 \<le> r * 1609 * (999 / 1000) / 1000" using assms(3) by simp
  ultimately have km: "r * 1609 * (999 / 1000) / 1000 * (999 / 1000) \<le> ?km"
    by (rule binary64_lower [rotated])
  have km0: "0 \<le> ?km" using km r by (simp add: order_trans [rotated])
  have "?km / 111 \<le> ?km / deg" using assms(1,2) km0 by (intro divide_left_mono) simp_all
  moreover have "r * 1609 * (999 / 1000) / 1000 * (999 / 1000) / 111 \<le> ?km / 111"
    using km by simp
  ultimately have "r * 1609 * (999 / 1000) / 1000 * (999 / 1000) / 111 \<le> ?km / deg"
    by linarith
  moreover have "1 / 2 ^ 1022 \<le> r * 1609 * (999 / 1000) / 1000 * (999 / 1000) / 111"
    using assms(3) by simp
  ultimately have "r * 1609 * (999 / 1000) / 1000 * (999 / 1000) / 111 * (999 / 1000)
      \<le> binary64 (?km / deg)"
    by (rule binary64_lower [rotated])
  moreover have "r / 70 \<le> r * 1609 * (999 / 1000) / 1000 * (999 / 1000) / 111 * (999 / 1000)"
    using r by simp
  ultimately show ?thesis by linarith
qed

text \<open>
  Two sums \<open>c - d\<close> and \<open>c + d\<close> round to different doubles when \<open>d\<close> is at least a
  seventieth of a range that is at least \<open>2 powr - 46\<close> times the centre.
\<close>

lemma binary64_spread:
  assumes "r / 70 \<le> d" and "\<bar>c\<bar> \<le> 2 ^ 46 * r" and "1 / 2 ^ 1000 \<le> r"
  shows "binary64 (c - d) < binary64 (c + d)"
proof (rule binary64_less)
  have "(0::real) < 1 / 2 ^ 1000" by simp
  with assms(3) have r: "0 < r" by (rule less_le_trans [rotated])
  with assms(1) have d: "0 < d" by simp
  have a: "\<bar>c - d\<bar> \<le> \<bar>c\<bar> + d" "\<bar>c + d\<bar> \<le> \<bar>c\<bar> + d" using d by linarith+
  have "(\<bar>c - d\<bar> + \<bar>c + d\<bar>) / 2 ^ 53 \<le> (2 * \<bar>c\<bar> + 2 * d) / 2 ^ 53"
    using a by (intro divide_right_mono) simp_all
  also have "\<dots> \<le> (2 * (2 ^ 46 * (70 * d)) + 2 * d) / 2 ^ 53"
    using assms(1,2) by (intro divide_right_mono) simp_all
  also have "\<dots> \<le> (3 / 2) * d" using d by simp
  finally have "(\<bar>c - d\<bar> + \<bar>c + d\<bar>) / 2 ^ 53 \<le> (3 / 2) * d" .
  moreover have "1 / 2 ^ 1074 < d / 2" using assms(1,3) by simp
  ultimately show "c - d + (\<bar>c - d\<bar> + \<bar>c + d\<bar>) / 2 ^ 53 + 1 / 2 ^ 1074 < c + d" by linarith
qed

lemma box64_lat_strict:
  assumes "\<bar>lat\<bar> \<le> 2 ^ 46 * r" and "1 / 2 ^ 1000 \<le> r"
  shows "bottomLat (getBoundingBoxFromCoordinatesAndRange binary64 lat lon r)
           < topLat (getBoundingBoxFromCoordinatesAndRange binary64 lat lon r)"
proof -
  have "r / 70 \<le> binary64 (binary64 (binary64 (r * binary64 1609.344) / 1000)
      / binary64 110.574235)"
    using binary64_const_bounds(1,2) assms(2) by (intro delta64_lower) simp_all
  then show ?thesis
    unfolding getBoundingBoxFromCoordinatesAndRange_def Let_def bounding_box.simps
    using assms by (rule binary64_spread)
qed

lemma box64_lng_strict:
  assumes "\<bar>lat\<bar> \<le> 90" and "\<bar>lon\<bar> \<le> 2 ^ 46 * r" and "1 / 2 ^ 1000 \<le> r"
  shows "leftLng (getBoundingBoxFromCoordinatesAndRange binary64 lat lon r)
           < rightLng (getBoundingBoxFromCoordinatesAndRange binary64 lat lon r)"
proof -
  have "r / 70 \<le> binary64 (binary64 (binary64 (r * binary64 1609.344) / 1000)
      / binary64 (binary64 110.572833
          * binary64 (cos (binary64 (binary64 (lat * binary64 pi) / 180)))))"
    using degLongKm_binary64 [OF assms(1)] assms(3) by (rule delta64_lower)
  then show ?thesis
    unfolding getBoundingBoxFromCoordinatesAndRange_def Let_def bounding_box.simps
    using assms(2,3) by (rule binary64_spread)
qed

text \<open>
  Rounding to nearest is odd, so the box of a range \<open>- r\<close> is the box of \<open>r\<close> with top and
  bottom, and left and right, exchanged.
\<close>

lemma box64_neg:
  "topLat (getBoundingBoxFromCoordinatesAndRange binary64 lat lon (- r))
     = bottomLat (getBoundingBoxFromCoordinatesAndRange binary64 lat lon r)"
  "bottomLat (getBoundingBoxFromCoordinatesAndRange binary64 lat lon (- r))
     = topLat (getBoundingBoxFromCoordinatesAndRange binary64 lat lon r)"
  "leftLng (getBoundingBoxFromCoordinatesAndRange binary64 lat lon (- r))
     = rightLng (getBoundingBoxFromCoordinatesAndRange binary64 lat lon r)"
  "rightLng (getBoundingBoxFromCoordinatesAndRange binary64 lat lon (- r))
     = leftLng (getBoundingBoxFromCoordinatesAndRange binary64 lat lon r)"
  by (simp_all add: getBoundingBoxFromCoordinatesAndRange_def Let_def binary64_minus)

lemma whereClause_inverted:
  assumes "whereClause b S" and "topLat b \<le> bottomLat b" and "rightLng b \<le> leftLng b"
  shows "topLat b = bottomLat b \<and> leftLng b = rightLng b
    \<and> (sidewalk_starting_latitude S = topLat b \<and> sidewalk_starting_longitude S = leftLng b
       \<or> sidewalk_ending_latitude S = topLat b \<and> sidewalk_ending_longitude S = leftLng b)"
  using assms unfolding whereClause_def by linarith

lemma whereClause_strictly_inverted:
  assumes "topLat b < bottomLat b \<or> rightLng b < leftLng b"
  shows "filter (whereClause b) Walkspan = []"
proof -
  have "\<not> whereClause b S" for S using assms unfolding whereClause_def by linarith
  then show ?thesis by simp
qed

subsection \<open>Concrete instances\<close>

lemma exact_box_origin:
  "getBoundingBoxFromCoordinatesAndRange exact 0 0 r =
     \<lparr> topLat = (r * 1609.344 / 1000) / 110.574235,
       bottomLat = - ((r * 1609.344 / 1000) / 110.574235),
       leftLng = - ((r * 1609.344 / 1000) / 110.572833),
       rightLng = (r * 1609.344 / 1000) / 110.572833 \<rparr>"
  by (simp add: exact_box)













section \<open>Nearest segment\<close>




text \<open>
  C2, as amended. When the store yields no candidate, \<open>getClosestSidewalk\<close> does not
  throw: it completes and returns \<open>undefined\<close>, which is no row of the table; no default
  or fallback row stands in.
\<close>

theorem getClosestSidewalk_empty:
  assumes "sidewalkCandidates fl Walkspan latitude longitude = []"
  shows "getClosestSidewalk fl sortBy2 distanceToLineSegment2 Walkspan Bronx_Walkability
           latitude longitude = Inr Undefined
    \<and> getClosestSidewalk fl sortBy2 distanceToLineSegment2 Walkspan Bronx_Walkability
           latitude longitude \<noteq> Inr (WalkspanRow row)"
  using assms by (simp add: getClosestSidewalk_first_return sortBy_def index0_def)

theorem getClosestSidewalk_empty_witness:
  "sidewalkCandidates binary64 [] 0 0 = []
   \<and> getClosestSidewalk binary64 sortBy (distanceToLineSegment binary64) [] [] 0 0
       = Inr Undefined"
proof -
  have h: "sidewalkCandidates binary64 [] 0 0 = []" by (simp add: sidewalkCandidates_def)
  show ?thesis
    using h getClosestSidewalk_empty [OF h, of sortBy "distanceToLineSegment binary64" "[]"]
    by simp
qed

text \<open>
  C2 as stated fails on an empty table: the call does not fail, it completes with the
  value \<open>undefined\<close>.
\<close>

theorem getClosestSidewalk_empty_does_not_fail:
  "getClosestSidewalk binary64 sortBy (distanceToLineSegment binary64) [] [] 0 0 = Inr Undefined
   \<and> \<not> isl (getClosestSidewalk binary64 sortBy (distanceToLineSegment binary64) [] [] 0 0)"
  by (simp add: getClosestSidewalk_def sidewalkCandidates_def sidewalkCandidates2_def
      sortBy_def index0_def)

text \<open>
  C8. The result of \<open>getClosestSidewalk\<close> is the first \<open>return\<close>'s, computed from the
  candidates of table \<open>Walkspan\<close> alone: it is the same whatever \<open>Bronx_Walkability\<close>
  holds and whatever \<open>sortBy2\<close> and \<open>distanceToLineSegment2\<close> are, and it is never a
  row of \<open>Bronx_Walkability\<close>.
\<close>

theorem getClosestSidewalk_single_source:
  "getClosestSidewalk fl sortBy2 distanceToLineSegment2 Walkspan Bronx_Walkability
       latitude longitude
     = getClosestSidewalk fl sortBy2' distanceToLineSegment2' Walkspan Bronx_Walkability'
         latitude longitude
   \<and> getClosestSidewalk fl sortBy2 distanceToLineSegment2 Walkspan Bronx_Walkability
         latitude longitude
     = Inr (index0 (map WalkspanRow
         (sortBy (sidewalkCandidates fl Walkspan latitude longitude)
            (criterion fl latitude longitude))))
   \<and> getClosestSidewalk fl sortBy2 distanceToLineSegment2 Walkspan Bronx_Walkability
         latitude longitude \<noteq> Inr (BronxRow row2)"
proof -
  have "index0 (map WalkspanRow xs) \<noteq> BronxRow row2" for xs
    by (cases xs) (simp_all add: index0_def)
  then show ?thesis by (simp add: getClosestSidewalk_first_return)
qed



section \<open>The bounding box\<close>

text \<open>
  C3. For every latitude, longitude and range in miles the function returns exactly
  \<open>topLat = lat + deltaLat\<close>, \<open>bottomLat = lat - deltaLat\<close>, \<open>leftLng = lon - deltaLng\<close>,
  \<open>rightLng = lon + deltaLng\<close> with \<open>deltaLat = (r * 1609.344 / 1000) / 110.574235\<close> and
  \<open>deltaLng = (r * 1609.344 / 1000) / (110.572833 * cos (lat * pi / 180))\<close>: in exact
  arithmetic, and with the same expressions under any rounding \<open>fl\<close> of the operations.
\<close>

theorem getBoundingBox_formula:
  "getBoundingBoxFromCoordinatesAndRange exact lat lon r =
     \<lparr> topLat = lat + (r * 1609.344 / 1000) / 110.574235,
       bottomLat = lat - (r * 1609.344 / 1000) / 110.574235,
       leftLng = lon - (r * 1609.344 / 1000) / (110.572833 * cos (lat * pi / 180)),
       rightLng = lon + (r * 1609.344 / 1000) / (110.572833 * cos (lat * pi / 180)) \<rparr>
   \<and> getBoundingBoxFromCoordinatesAndRange fl lat lon r =
     \<lparr> topLat = fl (lat + fl (fl (fl (r * fl 1609.344) / 1000) / fl 110.574235)),
       bottomLat = fl (lat - fl (fl (fl (r * fl 1609.344) / 1000) / fl 110.574235)),
       leftLng = fl (lon - fl (fl (fl (r * fl 1609.344) / 1000)
                   / fl (fl 110.572833 * fl (cos (fl (fl (lat * fl pi) / 180)))))),
       rightLng = fl (lon + fl (fl (fl (r * fl 1609.344) / 1000)
                   / fl (fl 110.572833 * fl (cos (fl (fl (lat * fl pi) / 180)))))) \<rparr>"
  by (simp add: getBoundingBoxFromCoordinatesAndRange_def exact_def Let_def)

text \<open>
  C6, as amended. For every latitude with \<open>|lat| < 90\<close>, every longitude and every range
  \<open>r > 0\<close>: in arithmetic without rounding the box satisfies \<open>bottomLat < topLat\<close> and
  \<open>leftLng < rightLng\<close>; in double arithmetic it satisfies \<open>bottomLat \<le> topLat\<close> and
  \<open>leftLng \<le> rightLng\<close>, and for a range of at least \<open>2 powr - 1000\<close> miles
  \<open>bottomLat < topLat\<close> whenever \<open>|lat| \<le> 2 powr 46 * r\<close> and \<open>leftLng < rightLng\<close> whenever
  \<open>|lon| \<le> 2 powr 46 * r\<close>: both for every range of at least \<open>2 powr - 38\<close> miles, about 6
  nanometres, when the longitude is between -180 and 180.
\<close>

theorem getBoundingBox_ordered:
  assumes "\<bar>lat\<bar> < 90" and "0 < r"
  shows "(bottomLat (getBoundingBoxFromCoordinatesAndRange exact lat lon r)
            < topLat (getBoundingBoxFromCoordinatesAndRange exact lat lon r)
        \<and> leftLng (getBoundingBoxFromCoordinatesAndRange exact lat lon r)
            < rightLng (getBoundingBoxFromCoordinatesAndRange exact lat lon r))
     \<and> (bottomLat (getBoundingBoxFromCoordinatesAndRange binary64 lat lon r)
            \<le> topLat (getBoundingBoxFromCoordinatesAndRange binary64 lat lon r)
        \<and> leftLng (getBoundingBoxFromCoordinatesAndRange binary64 lat lon r)
            \<le> rightLng (getBoundingBoxFromCoordinatesAndRange binary64 lat lon r))
     \<and> (1 / 2 ^ 1000 \<le> r \<and> \<bar>lat\<bar> \<le> 2 ^ 46 * r \<longrightarrow>
          bottomLat (getBoundingBoxFromCoordinatesAndRange binary64 lat lon r)
            < topLat (getBoundingBoxFromCoordinatesAndRange binary64 lat lon r))
     \<and> (1 / 2 ^ 1000 \<le> r \<and> \<bar>lon\<bar> \<le> 2 ^ 46 * r \<longrightarrow>
          leftLng (getBoundingBoxFromCoordinatesAndRange binary64 lat lon r)
            < rightLng (getBoundingBoxFromCoordinatesAndRange binary64 lat lon r))
     \<and> (1 / 2 ^ 38 \<le> r \<and> \<bar>lon\<bar> \<le> 180 \<longrightarrow>
          bottomLat (getBoundingBoxFromCoordinatesAndRange binary64 lat lon r)
            < topLat (getBoundingBoxFromCoordinatesAndRange binary64 lat lon r)
        \<and> leftLng (getBoundingBoxFromCoordinatesAndRange binary64 lat lon r)
            < rightLng (getBoundingBoxFromCoordinatesAndRange binary64 lat lon r))"
proof -
  let ?b = "getBoundingBoxFromCoordinatesAndRange binary64 lat lon r"
  from assms have lat: "\<bar>lat\<bar> \<le> 90" and r: "0 \<le> r" by simp_all
  note exact = exact_ordered [OF assms, of lon]
  note rounded = box64_ordered [OF lat r, of lon]
  have lat_strict: "bottomLat ?b < topLat ?b" if "1 / 2 ^ 1000 \<le> r" "\<bar>lat\<bar> \<le> 2 ^ 46 * r"
    using that(2,1) by (rule box64_lat_strict)
  have lng_strict: "leftLng ?b < rightLng ?b" if "1 / 2 ^ 1000 \<le> r" "\<bar>lon\<bar> \<le> 2 ^ 46 * r"
    using lat that(2,1) by (rule box64_lng_strict)
  have both: "bottomLat ?b < topLat ?b \<and> leftLng ?b < rightLng ?b"
    if "1 / 2 ^ 38 \<le> r" "\<bar>lon\<bar> \<le> 180"
  proof -
    have "(1::real) / 2 ^ 1000 \<le> 1 / 2 ^ 38" by simp
    then have small: "1 / 2 ^ 1000 \<le> r" using that(1) by (rule order_trans)
    have "180 \<le> 2 ^ 46 * r" using that(1) by simp
    then have "\<bar>lat\<bar> \<le> 2 ^ 46 * r" "\<bar>lon\<bar> \<le> 2 ^ 46 * r" using lat that(2) by linarith+
    then show ?thesis using small lat_strict lng_strict by simp
  qed
  from exact rounded lat_strict lng_strict both show ?thesis by blast
qed

theorem getBoundingBox_ordered_witness:
  "\<bar>0::real\<bar> < 90 \<and> (0::real) < 1 \<and> (1::real) / 2 ^ 1000 \<le> 1 \<and> \<bar>0::real\<bar> \<le> 2 ^ 46 * 1
   \<and> (1::real) / 2 ^ 38 \<le> 1 \<and> \<bar>0::real\<bar> \<le> 180
   \<and> bottomLat (getBoundingBoxFromCoordinatesAndRange exact 0 0 1)
       < topLat (getBoundingBoxFromCoordinatesAndRange exact 0 0 1)
   \<and> leftLng (getBoundingBoxFromCoordinatesAndRange exact 0 0 1)
       < rightLng (getBoundingBoxFromCoordinatesAndRange exact 0 0 1)
   \<and> bottomLat (getBoundingBoxFromCoordinatesAndRange binary64 0 0 1)
       < topLat (getBoundingBoxFromCoordinatesAndRange binary64 0 0 1)
   \<and> leftLng (getBoundingBoxFromCoordinatesAndRange binary64 0 0 1)
       < rightLng (getBoundingBoxFromCoordinatesAndRange binary64 0 0 1)"
proof -
  have h1: "\<bar>0::real\<bar> < 90" and h2: "(0::real) < 1" and h3: "(1::real) / 2 ^ 1000 \<le> 1"
    and h4: "\<bar>0::real\<bar> \<le> 2 ^ 46 * 1" and h5: "(1::real) / 2 ^ 38 \<le> 1"
    and h6: "\<bar>0::real\<bar> \<le> 180"
    by simp_all
  show ?thesis using h1 h2 h3 h4 h5 h6 getBoundingBox_ordered [OF h1 h2, of 0] by blast
qed

text \<open>
  C6 as stated fails in double arithmetic: at latitude 1, longitude 1 and the positive
  range \<open>2 powr - 100\<close>, three doubles, the deltas are absorbed and
  \<open>bottomLat = topLat = 1\<close>.
\<close>

theorem getBoundingBox_binary64_not_ordered:
  "\<bar>1::real\<bar> < 90 \<and> (0::real) < 1 / 2 ^ 100
   \<and> \<not> (bottomLat (getBoundingBoxFromCoordinatesAndRange binary64 1 1 (1 / 2 ^ 100))
           < topLat (getBoundingBoxFromCoordinatesAndRange binary64 1 1 (1 / 2 ^ 100))
        \<and> leftLng (getBoundingBoxFromCoordinatesAndRange binary64 1 1 (1 / 2 ^ 100))
           < rightLng (getBoundingBoxFromCoordinatesAndRange binary64 1 1 (1 / 2 ^ 100)))"
proof -
  have r: "\<bar>1 / 2 ^ 100 :: real\<bar> < 1 / 2 ^ 54" by simp
  show ?thesis unfolding box64_lat_collapse [OF r] by simp
qed

text \<open>
  C10, as amended. For every latitude, longitude and range: in arithmetic without rounding
  the box is symmetric about its centre, \<open>topLat - lat = lat - bottomLat\<close> and
  \<open>rightLng - lon = lon - leftLng\<close>; in double arithmetic \<open>topLat\<close> and \<open>bottomLat\<close> are
  the doubles nearest to \<open>lat + d\<close> and \<open>lat - d\<close> for one \<open>d\<close>, \<open>rightLng\<close> and \<open>leftLng\<close>
  the doubles nearest to \<open>lon + e\<close> and \<open>lon - e\<close> for one \<open>e\<close>, and the two sides of each
  equation differ by no more than half the spacing of the doubles at the one sum plus half
  the spacing at the other.
\<close>

theorem getBoundingBox_symmetric:
  "(topLat (getBoundingBoxFromCoordinatesAndRange exact lat lon r) - lat
      = lat - bottomLat (getBoundingBoxFromCoordinatesAndRange exact lat lon r)
    \<and> rightLng (getBoundingBoxFromCoordinatesAndRange exact lat lon r) - lon
      = lon - leftLng (getBoundingBoxFromCoordinatesAndRange exact lat lon r))
   \<and> (\<exists>d e.
        topLat (getBoundingBoxFromCoordinatesAndRange binary64 lat lon r) = binary64 (lat + d)
      \<and> bottomLat (getBoundingBoxFromCoordinatesAndRange binary64 lat lon r) = binary64 (lat - d)
      \<and> rightLng (getBoundingBoxFromCoordinatesAndRange binary64 lat lon r) = binary64 (lon + e)
      \<and> leftLng (getBoundingBoxFromCoordinatesAndRange binary64 lat lon r) = binary64 (lon - e)
      \<and> \<bar>(topLat (getBoundingBoxFromCoordinatesAndRange binary64 lat lon r) - lat)
           - (lat - bottomLat (getBoundingBoxFromCoordinatesAndRange binary64 lat lon r))\<bar>
          \<le> quantum (lat + d) / 2 + quantum (lat - d) / 2
      \<and> \<bar>(rightLng (getBoundingBoxFromCoordinatesAndRange binary64 lat lon r) - lon)
           - (lon - leftLng (getBoundingBoxFromCoordinatesAndRange binary64 lat lon r))\<bar>
          \<le> quantum (lon + e) / 2 + quantum (lon - e) / 2)"
proof -
  let ?q = "binary64 (binary64 (r * binary64 1609.344) / 1000)"
  let ?d = "binary64 (?q / binary64 110.574235)"
  let ?e = "binary64 (?q / binary64 (binary64 110.572833
              * binary64 (cos (binary64 (binary64 (lat * binary64 pi) / 180)))))"
  let ?b = "getBoundingBoxFromCoordinatesAndRange binary64 lat lon r"
  have fields: "topLat ?b = binary64 (lat + ?d)" "bottomLat ?b = binary64 (lat - ?d)"
    "rightLng ?b = binary64 (lon + ?e)" "leftLng ?b = binary64 (lon - ?e)"
    by (simp_all add: getBoundingBoxFromCoordinatesAndRange_def Let_def)
  have "\<bar>(topLat ?b - lat) - (lat - bottomLat ?b)\<bar> \<le> quantum (lat + ?d) / 2 + quantum (lat - ?d) / 2"
    unfolding fields by (rule binary64_pair_error)
  moreover have "\<bar>(rightLng ?b - lon) - (lon - leftLng ?b)\<bar>
      \<le> quantum (lon + ?e) / 2 + quantum (lon - ?e) / 2"
    unfolding fields by (rule binary64_pair_error)
  ultimately have "\<exists>d e. topLat ?b = binary64 (lat + d) \<and> bottomLat ?b = binary64 (lat - d)
      \<and> rightLng ?b = binary64 (lon + e) \<and> leftLng ?b = binary64 (lon - e)
      \<and> \<bar>(topLat ?b - lat) - (lat - bottomLat ?b)\<bar> \<le> quantum (lat + d) / 2 + quantum (lat - d) / 2
      \<and> \<bar>(rightLng ?b - lon) - (lon - leftLng ?b)\<bar> \<le> quantum (lon + e) / 2 + quantum (lon - e) / 2"
    using fields by blast
  then show ?thesis by (simp add: exact_box)
qed

text \<open>
  C10 as stated fails in double arithmetic: at latitude 1 and range \<open>13 / 2 ^ 51\<close>, both
  doubles, the sum
  \<open>1 + deltaLat\<close> rounds to 1 and the difference \<open>1 - deltaLat\<close> to the double below 1, so
  that \<open>topLat - lat = 0\<close> and \<open>lat - bottomLat = 2 powr - 53\<close>.
\<close>

theorem getBoundingBox_binary64_not_symmetric:
  "topLat (getBoundingBoxFromCoordinatesAndRange binary64 1 1 (13 / 2 ^ 51)) = 1
   \<and> bottomLat (getBoundingBoxFromCoordinatesAndRange binary64 1 1 (13 / 2 ^ 51)) = 1 - 1 / 2 ^ 53
   \<and> topLat (getBoundingBoxFromCoordinatesAndRange binary64 1 1 (13 / 2 ^ 51)) - 1
       \<noteq> 1 - bottomLat (getBoundingBoxFromCoordinatesAndRange binary64 1 1 (13 / 2 ^ 51))"
proof -
  let ?D = "binary64 (binary64 (binary64 (13 / 2 ^ 51 * binary64 1609.344) / 1000)
              / binary64 110.574235)"
  have lo: "1 / 2 ^ 54 < ?D" and hi: "?D < 1 / 2 ^ 53" by (rule deltaLat_13)+
  have "(0::real) \<le> 1 / 2 ^ 54" by simp
  with lo have "0 \<le> ?D" by (rule order_trans [OF _ less_imp_le, rotated])
  then have "binary64 (1 + ?D) = 1" using hi by (rule binary64_above_one)
  then have top: "topLat (getBoundingBoxFromCoordinatesAndRange binary64 1 1 (13 / 2 ^ 51)) = 1"
    by (simp add: getBoundingBoxFromCoordinatesAndRange_def Let_def)
  have "binary64 (1 - ?D) = 1 - 1 / 2 ^ 53" using lo hi by (rule binary64_just_below_one)
  then have bottom: "bottomLat (getBoundingBoxFromCoordinatesAndRange binary64 1 1 (13 / 2 ^ 51))
      = 1 - 1 / 2 ^ 53"
    by (simp add: getBoundingBoxFromCoordinatesAndRange_def Let_def)
  show ?thesis unfolding top bottom by simp
qed

section \<open>Segments in range\<close>

text \<open>
  C4. For every query and every row \<open>S\<close> of the table, \<open>getSidewalksInRadius\<close> returns
  rows of the table, and \<open>S\<close> is among them if and only if its start point or its end point
  lies in the derived box, all four bounds included. A row with neither end point in the
  box is therefore left out, wherever the segment between them runs.
\<close>

theorem getSidewalksInRadius_membership:
  "\<exists>rows. getSidewalksInRadius fl Walkspan Bronx_Walkability latitude longitude range_miles
        = Inr (WalkspanRows rows)
     \<and> set rows \<subseteq> set Walkspan
     \<and> (\<forall>S\<in>set Walkspan. S \<in> set rows \<longleftrightarrow>
          (let box = getBoundingBoxFromCoordinatesAndRange fl latitude longitude range_miles
           in (bottomLat box \<le> sidewalk_starting_latitude S
                 \<and> sidewalk_starting_latitude S \<le> topLat box
                 \<and> leftLng box \<le> sidewalk_starting_longitude S
                 \<and> sidewalk_starting_longitude S \<le> rightLng box)
            \<or> (bottomLat box \<le> sidewalk_ending_latitude S
                 \<and> sidewalk_ending_latitude S \<le> topLat box
                 \<and> leftLng box \<le> sidewalk_ending_longitude S
                 \<and> sidewalk_ending_longitude S \<le> rightLng box)))"
  by (auto simp: getSidewalksInRadius_first_return whereClause_def Let_def)

theorem getSidewalksInRadius_membership_witness:
  "exampleRow 0 (- 1) 0 1 \<in> set [exampleRow 0 0 5 5, exampleRow 1 1 2 2, exampleRow 0 (- 1) 0 1]
   \<and> (\<exists>rows. getSidewalksInRadius exact
          [exampleRow 0 0 5 5, exampleRow 1 1 2 2, exampleRow 0 (- 1) 0 1] [] 0 0 1
            = Inr (WalkspanRows rows)
        \<and> exampleRow 0 0 5 5 \<in> set rows
        \<and> exampleRow 1 1 2 2 \<notin> set rows
        \<and> exampleRow 0 (- 1) 0 1 \<notin> set rows)"
proof -
  let ?T = "[exampleRow 0 0 5 5, exampleRow 1 1 2 2, exampleRow 0 (- 1) 0 1]"
  from getSidewalksInRadius_membership [of exact ?T "[]" 0 0 1]
  obtain rows where rows:
    "getSidewalksInRadius exact ?T [] 0 0 1 = Inr (WalkspanRows rows)"
    "\<forall>S\<in>set ?T. S \<in> set rows \<longleftrightarrow>
       (let box = getBoundingBoxFromCoordinatesAndRange exact 0 0 1
        in (bottomLat box \<le> sidewalk_starting_latitude S
              \<and> sidewalk_starting_latitude S \<le> topLat box
              \<and> leftLng box \<le> sidewalk_starting_longitude S
              \<and> sidewalk_starting_longitude S \<le> rightLng box)
         \<or> (bottomLat box \<le> sidewalk_ending_latitude S
              \<and> sidewalk_ending_latitude S \<le> topLat box
              \<and> leftLng box \<le> sidewalk_ending_longitude S
              \<and> sidewalk_ending_longitude S \<le> rightLng box))"
    by blast
  have a: "exampleRow 0 0 5 5 \<in> set rows"
    using rows(2) by (simp add: exact_box_origin exampleRow_def Let_def)
  have b: "exampleRow 1 1 2 2 \<notin> set rows"
    using rows(2) by (simp add: exact_box_origin exampleRow_def Let_def)
  have c: "exampleRow 0 (- 1) 0 1 \<notin> set rows"
    using rows(2) by (simp add: exact_box_origin exampleRow_def Let_def)
  from rows(1) a b c show ?thesis by simp
qed

text \<open>
  C5. For a fixed query point with \<open>|latitude| < 90\<close> and ranges \<open>0 < r1 < r2\<close>, the rows
  returned for \<open>r1\<close> are among the rows returned for \<open>r2\<close>, over the same table: in
  arithmetic without rounding, and in double arithmetic.
\<close>

theorem getSidewalksInRadius_monotonic:
  assumes "\<bar>latitude\<bar> < 90" and "0 < r1" and "r1 < r2"
  shows "(\<exists>rows1 rows2.
        getSidewalksInRadius exact Walkspan Bronx_Walkability latitude longitude r1
          = Inr (WalkspanRows rows1)
      \<and> getSidewalksInRadius exact Walkspan Bronx_Walkability latitude longitude r2
          = Inr (WalkspanRows rows2)
      \<and> set rows1 \<subseteq> set rows2)
    \<and> (\<exists>rows1 rows2.
        getSidewalksInRadius binary64 Walkspan Bronx_Walkability latitude longitude r1
          = Inr (WalkspanRows rows1)
      \<and> getSidewalksInRadius binary64 Walkspan Bronx_Walkability latitude longitude r2
          = Inr (WalkspanRows rows2)
      \<and> set rows1 \<subseteq> set rows2)"
proof -
  let ?b1 = "getBoundingBoxFromCoordinatesAndRange exact latitude longitude r1"
  let ?b2 = "getBoundingBoxFromCoordinatesAndRange exact latitude longitude r2"
  let ?c1 = "getBoundingBoxFromCoordinatesAndRange binary64 latitude longitude r1"
  let ?c2 = "getBoundingBoxFromCoordinatesAndRange binary64 latitude longitude r2"
  have "whereClause ?b2 S" if "whereClause ?b1 S" for S
    using box_mono [OF assms(1) assms(3), of longitude] that by (rule whereClause_mono)
  then have ex: "set (filter (whereClause ?b1) Walkspan) \<subseteq> set (filter (whereClause ?b2) Walkspan)"
    by auto
  from assms(1) have lat: "\<bar>latitude\<bar> \<le> 90" by simp
  from assms(3) have le: "r1 \<le> r2" by simp
  have "whereClause ?c2 S" if "whereClause ?c1 S" for S
    using box64_mono [OF lat le, of longitude] that by (rule whereClause_mono)
  then have fl: "set (filter (whereClause ?c1) Walkspan) \<subseteq> set (filter (whereClause ?c2) Walkspan)"
    by auto
  show ?thesis using ex fl by (simp add: getSidewalksInRadius_first_return)
qed

theorem getSidewalksInRadius_monotonic_witness:
  "\<bar>0::real\<bar> < 90 \<and> (0::real) < 1 \<and> (1::real) < 2
   \<and> (\<exists>rows1 rows2.
        getSidewalksInRadius exact [exampleRow 0 0 5 5, exampleRow 1 1 2 2] [] 0 0 1
          = Inr (WalkspanRows rows1)
      \<and> getSidewalksInRadius exact [exampleRow 0 0 5 5, exampleRow 1 1 2 2] [] 0 0 2
          = Inr (WalkspanRows rows2)
      \<and> set rows1 \<subseteq> set rows2)
   \<and> (\<exists>rows1 rows2.
        getSidewalksInRadius binary64 [exampleRow 0 0 5 5, exampleRow 1 1 2 2] [] 0 0 1
          = Inr (WalkspanRows rows1)
      \<and> getSidewalksInRadius binary64 [exampleRow 0 0 5 5, exampleRow 1 1 2 2] [] 0 0 2
          = Inr (WalkspanRows rows2)
      \<and> set rows1 \<subseteq> set rows2)"
proof -
  have h1: "\<bar>0::real\<bar> < 90" and h2: "(0::real) < 1" and h3: "(1::real) < 2" by simp_all
  show ?thesis
    using h1 h2 h3
      getSidewalksInRadius_monotonic [OF h1 h2 h3,
        of "[exampleRow 0 0 5 5, exampleRow 1 1 2 2]" "[]" 0]
    by blast
qed

text \<open>
  C9, as amended. For \<open>|latitude| < 90\<close> and a negative range \<open>r\<close>: in arithmetic without
  rounding the box is inverted, \<open>topLat < bottomLat\<close> and \<open>rightLng < leftLng\<close>, and
  \<open>getSidewalksInRadius\<close> returns no row. In double arithmetic \<open>topLat \<le> bottomLat\<close> and
  \<open>rightLng \<le> leftLng\<close>, and a row is returned only when the box is a single point,
  \<open>topLat = bottomLat\<close> and \<open>leftLng = rightLng\<close>, where the row starts or ends; for a range of
  at most \<open>- (2 powr - 1000)\<close> miles the box is inverted in latitude whenever
  \<open>|latitude| \<le> 2 powr 46 * |r|\<close>, in longitude whenever \<open>|longitude| \<le> 2 powr 46 * |r|\<close>,
  and either way no row is returned: so it is for every range of at most \<open>- (2 powr - 38)\<close>
  miles when the longitude is between -180 and 180.
\<close>

theorem getSidewalksInRadius_negative_range:
  assumes "\<bar>latitude\<bar> < 90" and "r < 0"
  shows "(topLat (getBoundingBoxFromCoordinatesAndRange exact latitude longitude r)
            < bottomLat (getBoundingBoxFromCoordinatesAndRange exact latitude longitude r)
        \<and> rightLng (getBoundingBoxFromCoordinatesAndRange exact latitude longitude r)
            < leftLng (getBoundingBoxFromCoordinatesAndRange exact latitude longitude r)
        \<and> getSidewalksInRadius exact Walkspan Bronx_Walkability latitude longitude r
            = Inr (WalkspanRows []))
     \<and> (topLat (getBoundingBoxFromCoordinatesAndRange binary64 latitude longitude r)
            \<le> bottomLat (getBoundingBoxFromCoordinatesAndRange binary64 latitude longitude r)
        \<and> rightLng (getBoundingBoxFromCoordinatesAndRange binary64 latitude longitude r)
            \<le> leftLng (getBoundingBoxFromCoordinatesAndRange binary64 latitude longitude r))
     \<and> (\<exists>rows.
          getSidewalksInRadius binary64 Walkspan Bronx_Walkability latitude longitude r
            = Inr (WalkspanRows rows)
        \<and> (\<forall>S\<in>set rows.
              topLat (getBoundingBoxFromCoordinatesAndRange binary64 latitude longitude r)
                = bottomLat (getBoundingBoxFromCoordinatesAndRange binary64 latitude longitude r)
            \<and> leftLng (getBoundingBoxFromCoordinatesAndRange binary64 latitude longitude r)
                = rightLng (getBoundingBoxFromCoordinatesAndRange binary64 latitude longitude r)
            \<and> (sidewalk_starting_latitude S
                  = topLat (getBoundingBoxFromCoordinatesAndRange binary64 latitude longitude r)
                \<and> sidewalk_starting_longitude S
                  = leftLng (getBoundingBoxFromCoordinatesAndRange binary64 latitude longitude r)
               \<or> sidewalk_ending_latitude S
                  = topLat (getBoundingBoxFromCoordinatesAndRange binary64 latitude longitude r)
                \<and> sidewalk_ending_longitude S
                  = leftLng (getBoundingBoxFromCoordinatesAndRange binary64 latitude longitude r))))
     \<and> (r \<le> - (1 / 2 ^ 1000) \<and> \<bar>latitude\<bar> \<le> 2 ^ 46 * (- r) \<longrightarrow>
          topLat (getBoundingBoxFromCoordinatesAndRange binary64 latitude longitude r)
            < bottomLat (getBoundingBoxFromCoordinatesAndRange binary64 latitude longitude r)
        \<and> getSidewalksInRadius binary64 Walkspan Bronx_Walkability latitude longitude r
            = Inr (WalkspanRows []))
     \<and> (r \<le> - (1 / 2 ^ 1000) \<and> \<bar>longitude\<bar> \<le> 2 ^ 46 * (- r) \<longrightarrow>
          rightLng (getBoundingBoxFromCoordinatesAndRange binary64 latitude longitude r)
            < leftLng (getBoundingBoxFromCoordinatesAndRange binary64 latitude longitude r)
        \<and> getSidewalksInRadius binary64 Walkspan Bronx_Walkability latitude longitude r
            = Inr (WalkspanRows []))
     \<and> (r \<le> - (1 / 2 ^ 38) \<and> \<bar>longitude\<bar> \<le> 180 \<longrightarrow>
          topLat (getBoundingBoxFromCoordinatesAndRange binary64 latitude longitude r)
            < bottomLat (getBoundingBoxFromCoordinatesAndRange binary64 latitude longitude r)
        \<and> rightLng (getBoundingBoxFromCoordinatesAndRange binary64 latitude longitude r)
            < leftLng (getBoundingBoxFromCoordinatesAndRange binary64 latitude longitude r)
        \<and> getSidewalksInRadius binary64 Walkspan Bronx_Walkability latitude longitude r
            = Inr (WalkspanRows []))"
proof -
  let ?b = "getBoundingBoxFromCoordinatesAndRange exact latitude longitude r"
  let ?c = "getBoundingBoxFromCoordinatesAndRange binary64 latitude longitude r"
  let ?result = "getSidewalksInRadius binary64 Walkspan Bronx_Walkability latitude longitude r"
  have c: "0 < cos (latitude * pi / 180)" using assms(1) by (rule cos_latRadian_pos)
  have "r * 1609.344 / 1000 / (110.572833 * cos (latitude * pi / 180)) < 0"
    using c assms(2) by (simp add: divide_neg_pos)
  moreover have "r * 1609.344 / 1000 / 110.574235 < 0" using assms(2) by simp
  ultimately have inv: "topLat ?b < bottomLat ?b" "rightLng ?b < leftLng ?b"
    by (simp_all add: exact_box)
  from inv(1) have "filter (whereClause ?b) Walkspan = []"
    by (intro whereClause_strictly_inverted) simp
  then have empty: "getSidewalksInRadius exact Walkspan Bronx_Walkability latitude longitude r
      = Inr (WalkspanRows [])"
    by (simp add: getSidewalksInRadius_first_return)
  from assms have lat: "\<bar>latitude\<bar> \<le> 90" and r: "r \<le> 0" by simp_all
  note rounded = box64_inverted [OF lat r, of longitude]
  have result: "?result = Inr (WalkspanRows (filter (whereClause ?c) Walkspan))"
    by (rule getSidewalksInRadius_first_return)
  have point: "topLat ?c = bottomLat ?c \<and> leftLng ?c = rightLng ?c
      \<and> (sidewalk_starting_latitude S = topLat ?c \<and> sidewalk_starting_longitude S = leftLng ?c
         \<or> sidewalk_ending_latitude S = topLat ?c \<and> sidewalk_ending_longitude S = leftLng ?c)"
    if "S \<in> set (filter (whereClause ?c) Walkspan)" for S
  proof -
    from that have "whereClause ?c S" by simp
    then show ?thesis using rounded by (rule whereClause_inverted)
  qed
  have rows: "\<exists>rows. ?result = Inr (WalkspanRows rows)
      \<and> (\<forall>S\<in>set rows. topLat ?c = bottomLat ?c \<and> leftLng ?c = rightLng ?c
      \<and> (sidewalk_starting_latitude S = topLat ?c \<and> sidewalk_starting_longitude S = leftLng ?c
         \<or> sidewalk_ending_latitude S = topLat ?c \<and> sidewalk_ending_longitude S = leftLng ?c))"
    using result point by blast
  have none: "?result = Inr (WalkspanRows [])"
    if "topLat ?c < bottomLat ?c \<or> rightLng ?c < leftLng ?c"
    unfolding result using that by (simp only: whereClause_strictly_inverted)
  have lat_strict: "topLat ?c < bottomLat ?c"
    if "r \<le> - (1 / 2 ^ 1000)" "\<bar>latitude\<bar> \<le> 2 ^ 46 * (- r)"
  proof -
    from that(1) have "1 / 2 ^ 1000 \<le> - r" by simp
    with that(2) have "bottomLat (getBoundingBoxFromCoordinatesAndRange binary64 latitude
        longitude (- r)) < topLat (getBoundingBoxFromCoordinatesAndRange binary64 latitude
        longitude (- r))"
      by (rule box64_lat_strict)
    then show ?thesis using box64_neg [of latitude longitude "- r"] by simp
  qed
  have lng_strict: "rightLng ?c < leftLng ?c"
    if "r \<le> - (1 / 2 ^ 1000)" "\<bar>longitude\<bar> \<le> 2 ^ 46 * (- r)"
  proof -
    from that(1) have "1 / 2 ^ 1000 \<le> - r" by simp
    with lat that(2) have "leftLng (getBoundingBoxFromCoordinatesAndRange binary64 latitude
        longitude (- r)) < rightLng (getBoundingBoxFromCoordinatesAndRange binary64 latitude
        longitude (- r))"
      by (rule box64_lng_strict)
    then show ?thesis using box64_neg [of latitude longitude "- r"] by simp
  qed
  have both: "topLat ?c < bottomLat ?c \<and> rightLng ?c < leftLng ?c"
    if "r \<le> - (1 / 2 ^ 38)" "\<bar>longitude\<bar> \<le> 180"
  proof -
    have "- (1 / 2 ^ 38) \<le> - ((1::real) / 2 ^ 1000)" by simp
    with that(1) have small: "r \<le> - (1 / 2 ^ 1000)" by (rule order_trans)
    have "180 \<le> 2 ^ 46 * (- r)" using that(1) by simp
    then have "\<bar>latitude\<bar> \<le> 2 ^ 46 * (- r)" "\<bar>longitude\<bar> \<le> 2 ^ 46 * (- r)"
      using lat that(2) by linarith+
    then show ?thesis using small lat_strict lng_strict by simp
  qed
  from inv empty rounded rows none lat_strict lng_strict both show ?thesis by blast
qed

theorem getSidewalksInRadius_negative_range_witness:
  "\<bar>0::real\<bar> < 90 \<and> (- 1::real) < 0 \<and> (- 1::real) \<le> - (1 / 2 ^ 1000)
   \<and> \<bar>0::real\<bar> \<le> 2 ^ 46 * (- (- 1)) \<and> (- 1::real) \<le> - (1 / 2 ^ 38) \<and> \<bar>0::real\<bar> \<le> 180
   \<and> topLat (getBoundingBoxFromCoordinatesAndRange exact 0 0 (- 1))
       < bottomLat (getBoundingBoxFromCoordinatesAndRange exact 0 0 (- 1))
   \<and> getSidewalksInRadius exact [exampleRow 0 0 5 5] [] 0 0 (- 1) = Inr (WalkspanRows [])
   \<and> topLat (getBoundingBoxFromCoordinatesAndRange binary64 0 0 (- 1))
       < bottomLat (getBoundingBoxFromCoordinatesAndRange binary64 0 0 (- 1))
   \<and> rightLng (getBoundingBoxFromCoordinatesAndRange binary64 0 0 (- 1))
       < leftLng (getBoundingBoxFromCoordinatesAndRange binary64 0 0 (- 1))
   \<and> getSidewalksInRadius binary64 [exampleRow 0 0 5 5] [] 0 0 (- 1) = Inr (WalkspanRows [])
   \<and> exampleRow 1 1 2 2 \<in> set [exampleRow 1 1 2 2]
   \<and> getSidewalksInRadius binary64 [exampleRow 1 1 2 2] [] 1 1 (- (1 / 2 ^ 100))
       = Inr (WalkspanRows [exampleRow 1 1 2 2])
   \<and> topLat (getBoundingBoxFromCoordinatesAndRange binary64 1 1 (- (1 / 2 ^ 100)))
       = bottomLat (getBoundingBoxFromCoordinatesAndRange binary64 1 1 (- (1 / 2 ^ 100)))
   \<and> leftLng (getBoundingBoxFromCoordinatesAndRange binary64 1 1 (- (1 / 2 ^ 100)))
       = rightLng (getBoundingBoxFromCoordinatesAndRange binary64 1 1 (- (1 / 2 ^ 100)))"
proof -
  have h1: "\<bar>0::real\<bar> < 90" and h2: "(- 1::real) < 0" and h3: "(- 1::real) \<le> - (1 / 2 ^ 1000)"
    and h4: "\<bar>0::real\<bar> \<le> 2 ^ 46 * (- (- 1))" and h5: "(- 1::real) \<le> - (1 / 2 ^ 38)"
    and h6: "\<bar>0::real\<bar> \<le> 180"
    by simp_all
  have first: "topLat (getBoundingBoxFromCoordinatesAndRange exact 0 0 (- 1))
       < bottomLat (getBoundingBoxFromCoordinatesAndRange exact 0 0 (- 1))
   \<and> getSidewalksInRadius exact [exampleRow 0 0 5 5] [] 0 0 (- 1) = Inr (WalkspanRows [])
   \<and> topLat (getBoundingBoxFromCoordinatesAndRange binary64 0 0 (- 1))
       < bottomLat (getBoundingBoxFromCoordinatesAndRange binary64 0 0 (- 1))
   \<and> rightLng (getBoundingBoxFromCoordinatesAndRange binary64 0 0 (- 1))
       < leftLng (getBoundingBoxFromCoordinatesAndRange binary64 0 0 (- 1))
   \<and> getSidewalksInRadius binary64 [exampleRow 0 0 5 5] [] 0 0 (- 1) = Inr (WalkspanRows [])"
    using h3 h4 h5 h6
      getSidewalksInRadius_negative_range [OF h1 h2, of 0 "[exampleRow 0 0 5 5]" "[]"]
    by blast
  have k1: "\<bar>1::real\<bar> < 90" and k2: "(- (1 / 2 ^ 100) :: real) < 0" by simp_all
  have tiny: "\<bar>- (1 / 2 ^ 100) :: real\<bar> < 1 / 2 ^ 54" by simp
  have "whereClause (getBoundingBoxFromCoordinatesAndRange binary64 1 1 (- (1 / 2 ^ 100)))
          (exampleRow 1 1 2 2)"
    unfolding whereClause_def
    by (simp only: box64_lat_collapse [OF tiny] box64_lng_collapse [OF tiny])
       (simp add: exampleRow_def)
  then have returned: "getSidewalksInRadius binary64 [exampleRow 1 1 2 2] [] 1 1 (- (1 / 2 ^ 100))
       = Inr (WalkspanRows [exampleRow 1 1 2 2])"
    by (simp add: getSidewalksInRadius_first_return)
  have member: "exampleRow 1 1 2 2 \<in> set [exampleRow 1 1 2 2]" by simp
  from getSidewalksInRadius_negative_range [OF k1 k2, of 1 "[exampleRow 1 1 2 2]" "[]"]
  obtain rows where rows:
    "getSidewalksInRadius binary64 [exampleRow 1 1 2 2] [] 1 1 (- (1 / 2 ^ 100))
       = Inr (WalkspanRows rows)"
    "\<forall>S\<in>set rows.
        topLat (getBoundingBoxFromCoordinatesAndRange binary64 1 1 (- (1 / 2 ^ 100)))
          = bottomLat (getBoundingBoxFromCoordinatesAndRange binary64 1 1 (- (1 / 2 ^ 100)))
      \<and> leftLng (getBoundingBoxFromCoordinatesAndRange binary64 1 1 (- (1 / 2 ^ 100)))
          = rightLng (getBoundingBoxFromCoordinatesAndRange binary64 1 1 (- (1 / 2 ^ 100)))"
    by blast
  from rows(1) returned have "rows = [exampleRow 1 1 2 2]" by simp
  with rows(2) have second:
    "topLat (getBoundingBoxFromCoordinatesAndRange binary64 1 1 (- (1 / 2 ^ 100)))
       = bottomLat (getBoundingBoxFromCoordinatesAndRange binary64 1 1 (- (1 / 2 ^ 100)))
     \<and> leftLng (getBoundingBoxFromCoordinatesAndRange binary64 1 1 (- (1 / 2 ^ 100)))
       = rightLng (getBoundingBoxFromCoordinatesAndRange binary64 1 1 (- (1 / 2 ^ 100)))"
    by simp
  from h1 h2 h3 h4 h5 h6 first member returned second show ?thesis by (intro conjI) simp_all
qed

text \<open>
  C9 as stated fails in double arithmetic: at latitude 1, longitude 1 and the negative
  range \<open>- (2 powr - 100)\<close>, three doubles, the box is the point (1, 1), not inverted, and
  a row that starts there is returned.
\<close>

theorem getSidewalksInRadius_binary64_negative_range:
  "\<bar>1::real\<bar> < 90 \<and> (- (1 / 2 ^ 100) :: real) < 0
   \<and> \<not> topLat (getBoundingBoxFromCoordinatesAndRange binary64 1 1 (- (1 / 2 ^ 100)))
         < bottomLat (getBoundingBoxFromCoordinatesAndRange binary64 1 1 (- (1 / 2 ^ 100)))
   \<and> \<not> rightLng (getBoundingBoxFromCoordinatesAndRange binary64 1 1 (- (1 / 2 ^ 100)))
         < leftLng (getBoundingBoxFromCoordinatesAndRange binary64 1 1 (- (1 / 2 ^ 100)))
   \<and> getSidewalksInRadius binary64 [exampleRow 1 1 2 2] [] 1 1 (- (1 / 2 ^ 100))
       = Inr (WalkspanRows [exampleRow 1 1 2 2])"
proof -
  have r: "\<bar>- (1 / 2 ^ 100) :: real\<bar> < 1 / 2 ^ 54" by simp
  have "whereClause (getBoundingBoxFromCoordinatesAndRange binary64 1 1 (- (1 / 2 ^ 100)))
          (exampleRow 1 1 2 2)"
    unfolding whereClause_def
    by (simp only: box64_lat_collapse [OF r] box64_lng_collapse [OF r])
       (simp add: exampleRow_def)
  then have "getSidewalksInRadius binary64 [exampleRow 1 1 2 2] [] 1 1 (- (1 / 2 ^ 100))
       = Inr (WalkspanRows [exampleRow 1 1 2 2])"
    by (simp add: getSidewalksInRadius_first_return)
  then show ?thesis
    unfolding box64_lat_collapse [OF r] box64_lng_collapse [OF r] by simp
qed

end
